theory Spec2Isabelle
  imports Complex_Main "HOL-Library.Multiset"
begin

section \<open>Data model\<close>

text \<open>
  The game is a React component; its state lives in \<open>useState\<close> cells that the event
  handlers read and replace. The model follows the most complete page variant
  (\<open>src/unnamed/part_001\<close>); where another variant differs and a property depends on
  the difference, the other variant's handler is modelled beside it under a suffixed name.

  JavaScript numbers are modelled as follows. Camera coordinates, angles and screen
  coordinates are \<open>real\<close>: finite doubles with exact arithmetic, so rounding error, NaN
  and infinities are outside the model. Block coordinates are \<open>int\<close>, since every block
  the source creates takes its coordinates from loop counters or from \<open>Math.round\<close>.
  Inventory and recipe counts are \<open>int\<close>. \<open>Math.round v\<close> is \<open>\<lfloor>v + 1/2\<rfloor>\<close>, which is HOL's
  \<^const>\<open>round\<close>.

  Record fields carry a prefix (\<open>block_x\<close> for \<open>Block.x\<close>, \<open>cam_x\<close> for \<open>Camera.x\<close>),
  since a HOL record field is a global constant.
\<close>

datatype BlockType = grass | dirt | stone | wood | air | planks | cobblestone

record Block =
  block_type :: BlockType
  block_x :: int
  block_y :: int
  block_z :: int

record InventoryItem =
  item_type :: BlockType
  item_count :: int

record Camera =
  cam_x :: real
  cam_y :: real
  cam_z :: real
  cam_pitch :: real
  cam_yaw :: real

record Ingredient =
  ing_type :: BlockType
  ing_count :: int

text \<open>A recipe's \<open>name\<close> is a display label only and is left out.\<close>

record Recipe =
  recipe_id :: string
  result :: BlockType
  resultCount :: int
  ingredients :: "Ingredient list"

record Canvas =
  canvas_width :: real
  canvas_height :: real

record ProjectedPoint =
  proj_x :: real
  proj_y :: real
  proj_distance :: real

definition WORLD_SIZE :: int where
  "WORLD_SIZE = 30"

definition RENDER_DISTANCE :: real where
  "RENDER_DISTANCE = 15"

text \<open>
  A notification (\<open>toast.success\<close>, \<open>toast.error\<close>) is recorded by what it reports; the
  message texts of the source are not ASCII. \<open>ToastInsufficient\<close> is the one
  \<open>toast.error\<close> of the click handler.
\<close>

datatype Toast =
    ToastPlaced BlockType
  | ToastRemoved BlockType
  | ToastInsufficient
  | ToastCrafted string int

record Overlay =
  showChat :: bool
  showInventory :: bool
  pointerLocked :: bool

record Game =
  world :: "Block list"
  inventory :: "InventoryItem list"
  selectedBlock :: BlockType
  camera :: Camera
  ui :: Overlay
  isSwinging :: bool
  handAnimation :: real
  toasts :: "Toast list"

text \<open>The initial inventories of \<open>part_001\<close> and of \<open>part_000\<close>.\<close>

definition initialInventory :: "InventoryItem list" where
  "initialInventory =
    [\<lparr>item_type = grass, item_count = 64\<rparr>,
     \<lparr>item_type = dirt, item_count = 64\<rparr>,
     \<lparr>item_type = stone, item_count = 64\<rparr>,
     \<lparr>item_type = wood, item_count = 64\<rparr>,
     \<lparr>item_type = planks, item_count = 0\<rparr>,
     \<lparr>item_type = cobblestone, item_count = 10\<rparr>]"

definition initialInventory_part000 :: "InventoryItem list" where
  "initialInventory_part000 =
    [\<lparr>item_type = grass, item_count = 64\<rparr>,
     \<lparr>item_type = dirt, item_count = 64\<rparr>,
     \<lparr>item_type = stone, item_count = 64\<rparr>,
     \<lparr>item_type = wood, item_count = 64\<rparr>]"

definition initialCamera :: Camera where
  "initialCamera = \<lparr>cam_x = 15, cam_y = 5, cam_z = 15, cam_pitch = 0, cam_yaw = 0\<rparr>"

text \<open>The state in which the component of \<open>part_001\<close> is mounted.\<close>

definition initialGame :: Game where
  "initialGame =
    \<lparr>world = [], inventory = initialInventory, selectedBlock = grass, camera = initialCamera,
     ui = \<lparr>showChat = False, showInventory = False, pointerLocked = False\<rparr>,
     isSwinging = False, handAnimation = 0, toasts = []\<rparr>"

text \<open>A game in progress under pointer capture, with the given world and inventory.\<close>

definition playing :: "Block list \<Rightarrow> InventoryItem list \<Rightarrow> Game" where
  "playing w items =
    initialGame\<lparr>world := w, inventory := items,
      ui := \<lparr>showChat = False, showInventory = False, pointerLocked = True\<rparr>\<rparr>"

section \<open>Array helpers\<close>

text \<open>
  \<open>Array.prototype.findIndex\<close> with \<open>None\<close> for \<open>-1\<close>; \<open>find\<close> is \<^const>\<open>List.find\<close>
  and \<open>some\<close> is \<^const>\<open>list_ex\<close>.
\<close>

fun findIndex :: "('a \<Rightarrow> bool) \<Rightarrow> 'a list \<Rightarrow> nat option" where
  "findIndex P [] = None"
| "findIndex P (a # as) =
    (if P a then Some 0 else map_option Suc (findIndex P as))"

text \<open>\<open>xs.filter((_, i) => i !== k)\<close>\<close>

definition filterIndexNot :: "nat \<Rightarrow> 'a list \<Rightarrow> 'a list" where
  "filterIndexNot k xs = map snd (filter (\<lambda>(i, a). i \<noteq> k) (enumerate 0 xs))"

text \<open>
  \<open>Array.prototype.sort\<close> with a comparator returning a number: the result is the
  stable arrangement in which \<open>a\<close> precedes \<open>b\<close> whenever \<open>cmp a b < 0\<close>. It is
  computed here by stable insertion.
\<close>

fun jsInsert :: "('a \<Rightarrow> 'a \<Rightarrow> real) \<Rightarrow> 'a \<Rightarrow> 'a list \<Rightarrow> 'a list" where
  "jsInsert cmp a [] = [a]"
| "jsInsert cmp a (b # bs) =
    (if cmp a b \<le> 0 then a # b # bs else b # jsInsert cmp a bs)"

definition jsSort :: "('a \<Rightarrow> 'a \<Rightarrow> real) \<Rightarrow> 'a list \<Rightarrow> 'a list" where
  "jsSort cmp xs = foldr (jsInsert cmp) xs []"

section \<open>Camera and motion model\<close>

text \<open>
  \<open>keysPressed\<close> is a \<open>Set<string>\<close> of lower-cased key names. The updater that
  \<open>moveInterval\<close> passes to \<open>setCamera\<close> on every tick is \<open>moveTick\<close>: each pressed key
  adds its displacement in the source's order (\<open>movedPosition\<close>), then the three
  coordinates are clamped and stored.
\<close>

definition movedPosition :: "string set \<Rightarrow> Camera \<Rightarrow> real \<times> real \<times> real" where
  "movedPosition keys prev =
    (let speed = 0.2;
         forward = cos (cam_yaw prev);
         side = sin (cam_yaw prev);
         newX = cam_x prev;
         newZ = cam_z prev;
         newY = cam_y prev;
         (newX, newZ) = (if ''w'' \<in> keys then (newX + side * speed, newZ - forward * speed) else (newX, newZ));
         (newX, newZ) = (if ''s'' \<in> keys then (newX - side * speed, newZ + forward * speed) else (newX, newZ));
         (newX, newZ) = (if ''a'' \<in> keys then (newX - forward * speed, newZ - side * speed) else (newX, newZ));
         (newX, newZ) = (if ''d'' \<in> keys then (newX + forward * speed, newZ + side * speed) else (newX, newZ));
         newY = (if '' '' \<in> keys then newY + speed else newY);
         newY = (if ''shift'' \<in> keys then newY - speed else newY)
     in (newX, newY, newZ))"

definition moveTick :: "string set \<Rightarrow> Camera \<Rightarrow> Camera" where
  "moveTick keys prev =
    (case movedPosition keys prev of (newX, newY, newZ) \<Rightarrow>
      prev\<lparr>cam_x := max 0 (min (real_of_int WORLD_SIZE - 1) newX),
           cam_y := max 2 (min 20 newY),
           cam_z := max 0 (min (real_of_int WORLD_SIZE - 1) newZ)\<rparr>)"

text \<open>The updater of \<open>handleMouseMove\<close>; \<open>mx\<close>, \<open>my\<close> are \<open>e.movementX\<close>, \<open>e.movementY\<close>.\<close>

definition mouseLook :: "real \<Rightarrow> real \<Rightarrow> Camera \<Rightarrow> Camera" where
  "mouseLook mx my prev =
    (let sensitivity = 0.002
     in prev\<lparr>cam_yaw := cam_yaw prev + mx * sensitivity,
             cam_pitch := max (- pi / 2) (min (pi / 2) (cam_pitch prev + my * sensitivity))\<rparr>)"

text \<open>
  The two handlers are gated by the overlay and capture flags of the component: the
  tick returns at once while the chat or the inventory is open, and pointer movement
  counts only under pointer capture with the inventory closed.
\<close>

definition moveInterval :: "Overlay \<Rightarrow> string set \<Rightarrow> Camera \<Rightarrow> Camera" where
  "moveInterval flags keys cam =
    (if showChat flags \<or> showInventory flags then cam else moveTick keys cam)"

definition handleMouseMove :: "Overlay \<Rightarrow> real \<Rightarrow> real \<Rightarrow> Camera \<Rightarrow> Camera" where
  "handleMouseMove flags mx my cam =
    (if pointerLocked flags \<and> \<not> showInventory flags then mouseLook mx my cam else cam)"

text \<open>
  A history of timer and pointer events, each with the overlay flags under which its
  handler ran. An event is \<open>applied\<close> when its gate lets the updater through.
\<close>

datatype CameraEvent = Tick Overlay "string set" | PointerMove Overlay real real

fun cameraStep :: "Camera \<Rightarrow> CameraEvent \<Rightarrow> Camera" where
  "cameraStep cam (Tick flags keys) = moveInterval flags keys cam"
| "cameraStep cam (PointerMove flags mx my) = handleMouseMove flags mx my cam"

definition cameraRun :: "Camera \<Rightarrow> CameraEvent list \<Rightarrow> Camera" where
  "cameraRun cam evs = foldl cameraStep cam evs"

fun appliedTick :: "CameraEvent \<Rightarrow> bool" where
  "appliedTick (Tick flags keys) = (\<not> showChat flags \<and> \<not> showInventory flags)"
| "appliedTick (PointerMove flags mx my) = False"

fun appliedPointerMove :: "CameraEvent \<Rightarrow> bool" where
  "appliedPointerMove (Tick flags keys) = False"
| "appliedPointerMove (PointerMove flags mx my) = (pointerLocked flags \<and> \<not> showInventory flags)"

definition positionInBounds :: "Camera \<Rightarrow> bool" where
  "positionInBounds cam \<longleftrightarrow>
     0 \<le> cam_x cam \<and> cam_x cam \<le> real_of_int WORLD_SIZE - 1 \<and>
     0 \<le> cam_z cam \<and> cam_z cam \<le> real_of_int WORLD_SIZE - 1 \<and>
     2 \<le> cam_y cam \<and> cam_y cam \<le> 20"

definition pitchInBounds :: "Camera \<Rightarrow> bool" where
  "pitchInBounds cam \<longleftrightarrow> - pi / 2 \<le> cam_pitch cam \<and> cam_pitch cam \<le> pi / 2"

section \<open>Projection engine and cube rasterizer\<close>

text \<open>
  \<open>canvasRef.current\<close> is \<open>None\<close> while the canvas is not mounted. The four rotated
  coordinates are the local constants of \<open>project3DTo2D\<close>.
\<close>

definition rotatedX :: "Camera \<Rightarrow> real \<Rightarrow> real \<Rightarrow> real \<Rightarrow> real" where
  "rotatedX cam x y z =
    (x - cam_x cam) * cos (cam_yaw cam) - (z - cam_z cam) * sin (cam_yaw cam)"

definition rotatedZ :: "Camera \<Rightarrow> real \<Rightarrow> real \<Rightarrow> real \<Rightarrow> real" where
  "rotatedZ cam x y z =
    (x - cam_x cam) * sin (cam_yaw cam) + (z - cam_z cam) * cos (cam_yaw cam)"

definition rotatedY :: "Camera \<Rightarrow> real \<Rightarrow> real \<Rightarrow> real \<Rightarrow> real" where
  "rotatedY cam x y z =
    (y - cam_y cam) * cos (cam_pitch cam) + rotatedZ cam x y z * sin (cam_pitch cam)"

definition finalZ :: "Camera \<Rightarrow> real \<Rightarrow> real \<Rightarrow> real \<Rightarrow> real" where
  "finalZ cam x y z =
    - (y - cam_y cam) * sin (cam_pitch cam) + rotatedZ cam x y z * cos (cam_pitch cam)"

definition project3DTo2D ::
  "Canvas option \<Rightarrow> Camera \<Rightarrow> real \<Rightarrow> real \<Rightarrow> real \<Rightarrow> ProjectedPoint" where
  "project3DTo2D canvasRef cam x y z =
    (case canvasRef of
       None \<Rightarrow> \<lparr>proj_x = 0, proj_y = 0, proj_distance = 0\<rparr>
     | Some canvas \<Rightarrow>
        if finalZ cam x y z \<le> 0.1 then \<lparr>proj_x = 0, proj_y = 0, proj_distance = - 1\<rparr>
        else
          (let fov = 500;
               screenX = (rotatedX cam x y z * fov) / finalZ cam x y z + canvas_width canvas / 2;
               screenY = (- rotatedY cam x y z * fov) / finalZ cam x y z + canvas_height canvas / 2
           in \<lparr>proj_x = screenX, proj_y = screenY, proj_distance = finalZ cam x y z\<rparr>))"

text \<open>
  A colour string \<open>#rrggbb\<close> is kept as its three channels. \<open>adjustBrightness\<close> on the
  string \<open>transparent\<close> parses no hexadecimal digits and yields a string that is no colour.
\<close>

datatype Color = Hex int int int | Transparent | NotAColor

fun blockColors :: "BlockType \<Rightarrow> Color" where
  "blockColors grass = Hex 0x22 0x8B 0x22"
| "blockColors dirt = Hex 0x8B 0x45 0x13"
| "blockColors stone = Hex 0x70 0x80 0x90"
| "blockColors wood = Hex 0x65 0x43 0x21"
| "blockColors planks = Hex 0xDE 0xB8 0x87"
| "blockColors cobblestone = Hex 0x80 0x80 0x80"
| "blockColors air = Transparent"

fun adjustBrightness :: "Color \<Rightarrow> real \<Rightarrow> Color" where
  "adjustBrightness (Hex r g b) factor =
     Hex \<lfloor>real_of_int r * factor\<rfloor> \<lfloor>real_of_int g * factor\<rfloor> \<lfloor>real_of_int b * factor\<rfloor>"
| "adjustBrightness Transparent factor = NotAColor"
| "adjustBrightness NotAColor factor = NotAColor"

text \<open>
  What \<open>drawCube\<close> paints: one filled and stroked polygon per face, in the order of the
  \<open>faces\<close> array. The stroke style and line width are the same for every face.
\<close>

record FaceDraw =
  fillStyle :: Color
  path :: "(real \<times> real) list"

definition corners :: "real \<Rightarrow> real \<Rightarrow> real \<Rightarrow> (real \<times> real \<times> real) list" where
  "corners x y z =
    [(x, y, z), (x + 1, y, z), (x + 1, y + 1, z), (x, y + 1, z),
     (x, y, z + 1), (x + 1, y, z + 1), (x + 1, y + 1, z + 1), (x, y + 1, z + 1)]"

definition faces :: "nat list list" where
  "faces = [[0, 1, 2, 3], [4, 5, 6, 7], [0, 1, 5, 4], [2, 3, 7, 6], [0, 3, 7, 4], [1, 2, 6, 5]]"

definition faceColors :: "Color \<Rightarrow> Color list" where
  "faceColors color =
    [color, adjustBrightness color 0.8, adjustBrightness color 0.9,
     adjustBrightness color 0.7, adjustBrightness color 0.85, adjustBrightness color 0.95]"

definition drawCube ::
  "Canvas option \<Rightarrow> Camera \<Rightarrow> real \<Rightarrow> real \<Rightarrow> real \<Rightarrow> Color \<Rightarrow> FaceDraw list" where
  "drawCube canvasRef cam x y z color =
    (let projected = map (\<lambda>(cx, cy, cz). project3DTo2D canvasRef cam cx cy cz) (corners x y z)
     in if list_ex (\<lambda>p. proj_distance p < 0) projected then []
        else map (\<lambda>(face, faceColor).
                    \<lparr>fillStyle = faceColor,
                     path = map (\<lambda>i. (proj_x (projected ! i), proj_y (projected ! i))) face\<rparr>)
               (zip faces (faceColors color)))"

section \<open>Scene compositor\<close>

text \<open>
  \<open>sortedBlocks\<close> is the constant of that name in \<open>drawWorld\<close>. \<open>drawWorld\<close> itself is
  modelled for the cubes it paints; the sky fill before them and the companions and the
  hand after them do not change the order of the cubes.
\<close>

definition withinRenderDistance :: "Camera \<Rightarrow> Block \<Rightarrow> bool" where
  "withinRenderDistance cam block =
    (let dx = real_of_int (block_x block) - cam_x cam;
         dz = real_of_int (block_z block) - cam_z cam
     in sqrt (dx * dx + dz * dz) < RENDER_DISTANCE)"

definition horizontalDistance :: "Camera \<Rightarrow> Block \<Rightarrow> real" where
  "horizontalDistance cam a =
    sqrt ((real_of_int (block_x a) - cam_x cam)\<^sup>2 + (real_of_int (block_z a) - cam_z cam)\<^sup>2)"

definition sortedBlocks :: "Camera \<Rightarrow> Block list \<Rightarrow> Block list" where
  "sortedBlocks cam w =
    jsSort (\<lambda>a b. horizontalDistance cam b - horizontalDistance cam a)
      (filter (withinRenderDistance cam) w)"

definition rasterized :: "Camera \<Rightarrow> Block list \<Rightarrow> Block list" where
  "rasterized cam w = filter (\<lambda>block. block_type block \<noteq> air) (sortedBlocks cam w)"

definition drawWorld :: "Canvas option \<Rightarrow> Camera \<Rightarrow> Block list \<Rightarrow> FaceDraw list" where
  "drawWorld canvasRef cam w =
    (case canvasRef of
       None \<Rightarrow> []
     | Some canvas \<Rightarrow>
        concat (map (\<lambda>block.
            if block_type block \<noteq> air
            then drawCube canvasRef cam (real_of_int (block_x block)) (real_of_int (block_y block))
                   (real_of_int (block_z block)) (blockColors (block_type block))
            else [])
          (sortedBlocks cam w)))"

section \<open>Targeting and edit resolver\<close>

text \<open>
  \<open>forwardVector\<close> is the constant \<open>forward\<close> of both handlers; \<open>lookCell cam d\<close> is the
  lattice cell \<open>(Math.round(camera.x + forward.x * d), ...)\<close> that both compute, the
  click handler at the fixed distance 3 and the context-menu handler at each step of
  its loop.
\<close>

definition forwardVector :: "Camera \<Rightarrow> real \<times> real \<times> real" where
  "forwardVector cam =
    (sin (cam_yaw cam) * cos (cam_pitch cam),
     - sin (cam_pitch cam),
     cos (cam_yaw cam) * cos (cam_pitch cam))"

definition lookCell :: "Camera \<Rightarrow> real \<Rightarrow> int \<times> int \<times> int" where
  "lookCell cam d =
    (case forwardVector cam of (fx, fy, fz) \<Rightarrow>
      (round (cam_x cam + fx * d), round (cam_y cam + fy * d), round (cam_z cam + fz * d)))"

fun atCell :: "int \<times> int \<times> int \<Rightarrow> Block \<Rightarrow> bool" where
  "atCell (cx, cy, cz) b \<longleftrightarrow> block_x b = cx \<and> block_y b = cy \<and> block_z b = cz"

definition decrementType :: "BlockType \<Rightarrow> InventoryItem list \<Rightarrow> InventoryItem list" where
  "decrementType t items =
    map (\<lambda>i. if item_type i = t then i\<lparr>item_count := item_count i - 1\<rparr> else i) items"

definition incrementType :: "BlockType \<Rightarrow> InventoryItem list \<Rightarrow> InventoryItem list" where
  "incrementType t items =
    map (\<lambda>i. if item_type i = t then i\<lparr>item_count := item_count i + 1\<rparr> else i) items"

text \<open>The count the inventory holds for a type: that of the first entry of the type.\<close>

definition countOf :: "InventoryItem list \<Rightarrow> BlockType \<Rightarrow> int option" where
  "countOf items t = map_option item_count (find (\<lambda>i. item_type i = t) items)"

text \<open>
  \<open>handleCanvasClick\<close> of \<open>part_001\<close> (and, with the same text, of \<open>part_000\<close>). Without
  pointer capture the click only requests capture, which changes no state of the
  component by itself. \<open>button\<close> is \<open>e.button\<close>.
\<close>

definition handleCanvasClick :: "int \<Rightarrow> Game \<Rightarrow> Game" where
  "handleCanvasClick button g =
    (if \<not> pointerLocked (ui g) then g
     else
       (let g1 = g\<lparr>isSwinging := True, handAnimation := 0\<rparr>;
            insufficient = g1\<lparr>toasts := toasts g @ [ToastInsufficient]\<rparr>
        in if button = 0 then
             (case find (\<lambda>i. item_type i = selectedBlock g) (inventory g) of
                None \<Rightarrow> insufficient
              | Some item \<Rightarrow>
                  if item_count item > 0 then
                    (let distance = 3;
                         place = lookCell (camera g) distance;
                         exists = list_ex (atCell place) (world g)
                     in if \<not> exists then
                          (case place of (placeX, placeY, placeZ) \<Rightarrow>
                            g1\<lparr>world := world g @
                                  [\<lparr>block_type = selectedBlock g, block_x = placeX,
                                    block_y = placeY, block_z = placeZ\<rparr>],
                               inventory := decrementType (selectedBlock g) (inventory g),
                               toasts := toasts g @ [ToastPlaced (selectedBlock g)]\<rparr>)
                        else g1)
                  else insufficient)
           else g1))"

text \<open>
  \<open>handleCanvasClick\<close> of \<open>part_002\<close>, the first first-person variant: no pointer
  capture, a horizontal look vector at distance 2, no test of the target cell and no
  \<open>else\<close> branch.
\<close>

definition handleCanvasClick_part002 :: "int \<Rightarrow> Game \<Rightarrow> Game" where
  "handleCanvasClick_part002 button g =
    (let g1 = g\<lparr>isSwinging := True, handAnimation := 0\<rparr>
     in if button = 0 then
          (case find (\<lambda>i. item_type i = selectedBlock g) (inventory g) of
             None \<Rightarrow> g1
           | Some item \<Rightarrow>
               if item_count item > 0 then
                 (let placeX = round (cam_x (camera g) + sin (cam_yaw (camera g)) * 2);
                      placeY = round (cam_y (camera g));
                      placeZ = round (cam_z (camera g) + cos (cam_yaw (camera g)) * 2)
                  in g1\<lparr>world := world g @
                           [\<lparr>block_type = selectedBlock g, block_x = placeX,
                             block_y = placeY, block_z = placeZ\<rparr>],
                        inventory := decrementType (selectedBlock g) (inventory g),
                        toasts := toasts g @ [ToastPlaced (selectedBlock g)]\<rparr>)
               else g1)
        else g1)"

text \<open>
  The loop \<open>for (let dist = 1; dist <= 5; dist += 0.5)\<close> of \<open>handleContextMenu\<close>, from
  the distance \<open>d\<close> (the loop variable \<open>dist\<close>) on: the index of the first block found, or \<open>None\<close> when the loop
  runs out.
\<close>

function removeMarch :: "Camera \<Rightarrow> Block list \<Rightarrow> real \<Rightarrow> nat option" where
  "removeMarch cam w d =
    (if d \<le> 5 then
       (case findIndex (atCell (lookCell cam d)) w of
          Some blockIndex \<Rightarrow> Some blockIndex
        | None \<Rightarrow> removeMarch cam w (d + 0.5))
     else None)"
  by pat_completeness auto
termination
proof (relation "measure (\<lambda>(cam, w, d). nat \<lfloor>(5 - d) * 2 + 1\<rfloor>)")
  show "wf (measure (\<lambda>(cam, w, d). nat \<lfloor>(5 - d) * 2 + 1\<rfloor>))"
    by simp
next
  fix cam :: Camera and w :: "Block list" and d :: real
  assume "d \<le> 5"
  then have "0 \<le> (5 - d) * 2" by simp
  then have "0 \<le> \<lfloor>(5 - d) * 2\<rfloor>" by simp
  moreover have "\<lfloor>(5 - (d + 0.5)) * 2 + 1\<rfloor> = \<lfloor>(5 - d) * 2\<rfloor>"
    by (simp add: algebra_simps)
  moreover have "\<lfloor>(5 - d) * 2 + 1\<rfloor> = \<lfloor>(5 - d) * 2\<rfloor> + 1"
    by linarith
  ultimately show "((cam, w, d + 0.5), (cam, w, d))
      \<in> measure (\<lambda>(cam, w, d). nat \<lfloor>(5 - d) * 2 + 1\<rfloor>)"
    by simp
qed

declare removeMarch.simps [simp del]

definition handleContextMenu :: "Game \<Rightarrow> Game" where
  "handleContextMenu g =
    (if \<not> pointerLocked (ui g) then g
     else
       (case removeMarch (camera g) (world g) 1 of
          None \<Rightarrow> g
        | Some blockIndex \<Rightarrow>
            (let removedBlock = world g ! blockIndex
             in g\<lparr>world := filterIndexNot blockIndex (world g),
                  inventory := incrementType (block_type removedBlock) (inventory g),
                  toasts := toasts g @ [ToastRemoved (block_type removedBlock)],
                  isSwinging := True,
                  handAnimation := 0\<rparr>)))"

text \<open>
  Notions used to state what the two handlers do. \<open>sampleDistances\<close> are the distances
  1, 1.5, 2, ... up to 5 at which the remove action samples the look vector, and
  \<open>firstHit\<close> is the first of them whose lattice cell holds a block. A place attempt is
  \<open>accepted\<close> when the click is a left click under pointer capture, the selected type
  has an entry with a positive count and the target cell is free.
\<close>

text \<open>
  The point at distance \<open>e\<close> from the camera along its line of sight, written out from
  the yaw and the pitch.
\<close>

definition samplePoint :: "Camera \<Rightarrow> real \<Rightarrow> real \<times> real \<times> real" where
  "samplePoint cam e =
    (cam_x cam + sin (cam_yaw cam) * cos (cam_pitch cam) * e,
     cam_y cam - sin (cam_pitch cam) * e,
     cam_z cam + cos (cam_yaw cam) * cos (cam_pitch cam) * e)"

definition sampleDistances :: "real list" where
  "sampleDistances = map (\<lambda>j. 1 + real j / 2) [0 ..< 9]"

definition occupied :: "Block list \<Rightarrow> int \<times> int \<times> int \<Rightarrow> bool" where
  "occupied w cell = list_ex (atCell cell) w"

definition firstHit :: "Camera \<Rightarrow> Block list \<Rightarrow> real option" where
  "firstHit cam w = find (\<lambda>d. occupied w (lookCell cam d)) sampleDistances"

definition hasPositiveCount :: "InventoryItem list \<Rightarrow> BlockType \<Rightarrow> bool" where
  "hasPositiveCount items t =
    (case countOf items t of None \<Rightarrow> False | Some c \<Rightarrow> 0 < c)"

definition accepted :: "int \<Rightarrow> Game \<Rightarrow> bool" where
  "accepted button g \<longleftrightarrow>
     pointerLocked (ui g) \<and> button = 0 \<and> hasPositiveCount (inventory g) (selectedBlock g) \<and>
     \<not> occupied (world g) (lookCell (camera g) 3)"

text \<open>
  Histories of user actions. Between two clicks the camera, the selected block type
  and the capture state may change in any way.
\<close>

datatype GameEvent =
    Click int
  | ContextMenu
  | SetCamera Camera
  | SelectBlock BlockType
  | PointerLockChange bool

fun gameStep :: "Game \<Rightarrow> GameEvent \<Rightarrow> Game" where
  "gameStep g (Click button) = handleCanvasClick button g"
| "gameStep g ContextMenu = handleContextMenu g"
| "gameStep g (SetCamera cam) = g\<lparr>camera := cam\<rparr>"
| "gameStep g (SelectBlock t) = g\<lparr>selectedBlock := t\<rparr>"
| "gameStep g (PointerLockChange locked) = g\<lparr>ui := (ui g)\<lparr>pointerLocked := locked\<rparr>\<rparr>"

definition gameRun :: "Game \<Rightarrow> GameEvent list \<Rightarrow> Game" where
  "gameRun g evs = foldl gameStep g evs"

text \<open>
  The conserved quantity: the sum of the inventory counts plus the number of world
  blocks whose type has an inventory entry.
\<close>

definition inventoryTotal :: "InventoryItem list \<Rightarrow> int" where
  "inventoryTotal items = sum_list (map item_count items)"

definition trackable :: "InventoryItem list \<Rightarrow> BlockType \<Rightarrow> bool" where
  "trackable items t \<longleftrightarrow> t \<in> set (map item_type items)"

definition trackedBlocks :: "InventoryItem list \<Rightarrow> Block list \<Rightarrow> int" where
  "trackedBlocks items w = int (length (filter (\<lambda>b. trackable items (block_type b)) w))"

definition conserved :: "Game \<Rightarrow> int" where
  "conserved g = inventoryTotal (inventory g) + trackedBlocks (inventory g) (world g)"

section \<open>Crafting\<close>

definition recipes :: "Recipe list" where
  "recipes =
    [\<lparr>recipe_id = ''planks'', result = planks, resultCount = 4,
      ingredients = [\<lparr>ing_type = wood, ing_count = 1\<rparr>]\<rparr>,
     \<lparr>recipe_id = ''cobblestone_to_stone'', result = stone, resultCount = 1,
      ingredients = [\<lparr>ing_type = cobblestone, ing_count = 1\<rparr>]\<rparr>]"

definition canCraft :: "InventoryItem list \<Rightarrow> Recipe \<Rightarrow> bool" where
  "canCraft items recipe =
    list_all (\<lambda>ingredient.
        case find (\<lambda>i. item_type i = ing_type ingredient) items of
          None \<Rightarrow> False
        | Some item \<Rightarrow> item_count item \<ge> ing_count ingredient)
      (ingredients recipe)"

definition takeIngredient :: "InventoryItem list \<Rightarrow> Ingredient \<Rightarrow> InventoryItem list" where
  "takeIngredient newInventory ingredient =
    (case findIndex (\<lambda>i. item_type i = ing_type ingredient) newInventory of
       None \<Rightarrow> newInventory
     | Some itemIndex \<Rightarrow>
         newInventory[itemIndex :=
           (newInventory ! itemIndex)
             \<lparr>item_count := item_count (newInventory ! itemIndex) - ing_count ingredient\<rparr>])"

definition addResult :: "InventoryItem list \<Rightarrow> Recipe \<Rightarrow> InventoryItem list" where
  "addResult newInventory recipe =
    (case findIndex (\<lambda>i. item_type i = result recipe) newInventory of
       None \<Rightarrow> newInventory
     | Some resultIndex \<Rightarrow>
         newInventory[resultIndex :=
           (newInventory ! resultIndex)
             \<lparr>item_count := item_count (newInventory ! resultIndex) + resultCount recipe\<rparr>])"

definition craftInventory :: "Recipe \<Rightarrow> InventoryItem list \<Rightarrow> InventoryItem list" where
  "craftInventory recipe prev = addResult (foldl takeIngredient prev (ingredients recipe)) recipe"

definition handleCraft :: "Recipe \<Rightarrow> Game \<Rightarrow> Game" where
  "handleCraft recipe g =
    (if canCraft (inventory g) recipe then
       g\<lparr>inventory := craftInventory recipe (inventory g),
         toasts := toasts g @ [ToastCrafted (recipe_id recipe) (resultCount recipe)]\<rparr>
     else g)"

text \<open>
  Notions used to state what crafting does. An ingredient is \<open>sufficient\<close> when the
  inventory has an entry of its type that holds at least the required count;
  \<open>required recipe t\<close> is the total the recipe takes of type \<open>t\<close>, and \<open>credited recipe t\<close>
  is what it yields of type \<open>t\<close>.
\<close>

definition sufficient :: "InventoryItem list \<Rightarrow> Ingredient \<Rightarrow> bool" where
  "sufficient items ingredient =
    (case countOf items (ing_type ingredient) of
       None \<Rightarrow> False
     | Some c \<Rightarrow> ing_count ingredient \<le> c)"

definition required :: "Recipe \<Rightarrow> BlockType \<Rightarrow> int" where
  "required recipe t =
    sum_list (map ing_count (filter (\<lambda>ingredient. ing_type ingredient = t) (ingredients recipe)))"

definition credited :: "Recipe \<Rightarrow> BlockType \<Rightarrow> int" where
  "credited recipe t = (if t = result recipe then resultCount recipe else 0)"

definition nonNegative :: "InventoryItem list \<Rightarrow> bool" where
  "nonNegative items = list_all (\<lambda>i. 0 \<le> item_count i) items"

section \<open>World generators\<close>

text \<open>
  The ambient random source \<open>Math.random\<close> is made explicit: a generator receives the
  stream of values that the source would return from now on and hands back what is
  left of it.
\<close>

type_synonym RandomSource = "nat \<Rightarrow> real"

definition mathRandom :: "RandomSource \<Rightarrow> real \<times> RandomSource" where
  "mathRandom rnd = (rnd 0, \<lambda>n. rnd (Suc n))"

definition mkBlock :: "BlockType \<Rightarrow> int \<Rightarrow> int \<Rightarrow> int \<Rightarrow> Block" where
  "mkBlock t x y z = \<lparr>block_type = t, block_x = x, block_y = y, block_z = z\<rparr>"

definition baseLayer :: "int \<Rightarrow> Block list" where
  "baseLayer worldSize =
    concat (map (\<lambda>x. concat (map (\<lambda>z.
        [mkBlock grass x 0 z, mkBlock dirt x (- 1) z, mkBlock dirt x (- 2) z])
      [0 .. worldSize - 1])) [0 .. worldSize - 1])"

definition buildHouse :: "int \<Rightarrow> int \<Rightarrow> int \<Rightarrow> int \<Rightarrow> int \<Rightarrow> Block list" where
  "buildHouse startX startZ width depth height =
    concat (map (\<lambda>y.
        concat (map (\<lambda>x. [mkBlock planks x y startZ, mkBlock planks x y (startZ + depth - 1)])
          [startX .. startX + width - 1]) @
        concat (map (\<lambda>z. [mkBlock planks startX y z, mkBlock planks (startX + width - 1) y z])
          [startZ .. startZ + depth - 1]))
      [1 .. height]) @
    concat (map (\<lambda>x. map (\<lambda>z. mkBlock wood x (height + 1) z) [startZ .. startZ + depth - 1])
      [startX .. startX + width - 1]) @
    [mkBlock air (startX + width div 2) 1 startZ, mkBlock air (startX + width div 2) 2 startZ]"

definition houses :: "Block list" where
  "houses = buildHouse 5 5 6 6 3 @ buildHouse 13 5 5 5 3 @ buildHouse 5 13 7 6 3 @
            buildHouse 14 14 6 6 4"

definition plaza :: "Block list" where
  "plaza = concat (map (\<lambda>x. map (\<lambda>z. mkBlock cobblestone x 1 z) [10 .. 12]) [10 .. 12])"

definition villageBlocks :: "int \<Rightarrow> Block list" where
  "villageBlocks worldSize = baseLayer worldSize @ houses @ plaza"

definition generateVillage :: "RandomSource \<Rightarrow> Game \<Rightarrow> Game \<times> RandomSource" where
  "generateVillage rnd g =
    (g\<lparr>world := villageBlocks WORLD_SIZE,
       camera := \<lparr>cam_x = 15, cam_y = 5, cam_z = 20, cam_pitch = 0, cam_yaw = 0\<rparr>\<rparr>,
     rnd)"

text \<open>
  For contrast, the layered terrain of \<open>part_002\<close> (world size 16): each column draws
  its height and its tree from the random source.
\<close>

definition terrainColumn :: "RandomSource \<Rightarrow> int \<Rightarrow> int \<Rightarrow> Block list \<times> RandomSource" where
  "terrainColumn rnd x z =
    (case mathRandom rnd of (r1, rnd1) \<Rightarrow>
      (let height = \<lfloor>r1 * 3\<rfloor> + 4;
           column = map (\<lambda>y.
               if y = height - 1 then mkBlock grass x y z
               else if y > height - 4 then mkBlock dirt x y z
               else mkBlock stone x y z) [0 .. height - 1]
       in case mathRandom rnd1 of (r2, rnd2) \<Rightarrow>
            (if r2 > 0.85 \<and> height \<ge> 4
             then (column @ map (\<lambda>t. mkBlock wood x (height + t) z) [0 .. 3], rnd2)
             else (column, rnd2))))"

definition generateWorld_part002 :: "RandomSource \<Rightarrow> Block list \<times> RandomSource" where
  "generateWorld_part002 rnd =
    foldl (\<lambda>(blocks, r) (x, z). case terrainColumn r x z of (col, r') \<Rightarrow> (blocks @ col, r'))
      ([], rnd) (List.product [0 .. 15] [0 .. 15])"

section \<open>Example states\<close>


text \<open>
  The page of \<open>part_002\<close> with its initial camera, the given world and inventory, and
  grass selected.
\<close>

definition playing_part002 :: "Block list \<Rightarrow> InventoryItem list \<Rightarrow> Game" where
  "playing_part002 w items =
    (playing w items)\<lparr>camera := \<lparr>cam_x = 8, cam_y = 5, cam_z = 8, cam_pitch = 0, cam_yaw = 0\<rparr>\<rparr>"



text \<open>The initial game of \<open>part_001\<close> after all the wood has been used up.\<close>

definition outOfWood :: Game where
  "outOfWood =
    initialGame\<lparr>inventory := initialInventory [3 := \<lparr>item_type = wood, item_count = 0\<rparr>]\<rparr>"

section \<open>Camera bounds\<close>

lemma clamp_bounds:
  fixes lo hi v :: real
  assumes "lo \<le> hi"
  shows "lo \<le> max lo (min hi v)" and "max lo (min hi v) \<le> hi"
  using assms by auto

lemma moveTick_position: "positionInBounds (moveTick keys cam)"
  by (simp add: moveTick_def positionInBounds_def WORLD_SIZE_def split: prod.split)

lemma moveTick_angles:
  "cam_pitch (moveTick keys cam) = cam_pitch cam \<and> cam_yaw (moveTick keys cam) = cam_yaw cam"
  by (simp add: moveTick_def split: prod.split)

lemma mouseLook_pitch: "pitchInBounds (mouseLook mx my cam)"
proof -
  have le: "- pi / 2 \<le> pi / 2" by simp
  have "cam_pitch (mouseLook mx my cam) =
      max (- pi / 2) (min (pi / 2) (cam_pitch cam + my * 0.002))"
    by (simp add: mouseLook_def Let_def)
  then show ?thesis
    unfolding pitchInBounds_def using clamp_bounds [OF le] by presburger
qed

lemma mouseLook_position:
  "cam_x (mouseLook mx my cam) = cam_x cam \<and> cam_y (mouseLook mx my cam) = cam_y cam \<and>
   cam_z (mouseLook mx my cam) = cam_z cam"
  by (simp add: mouseLook_def Let_def)

lemma mouseLook_keeps_position:
  "positionInBounds cam \<Longrightarrow> positionInBounds (mouseLook mx my cam)"
  by (simp add: positionInBounds_def mouseLook_position)

lemma moveTick_keeps_pitch:
  "pitchInBounds cam \<Longrightarrow> pitchInBounds (moveTick keys cam)"
  by (simp add: pitchInBounds_def moveTick_angles)

lemma cameraRun_snoc: "cameraRun cam (evs @ [e]) = cameraStep (cameraRun cam evs) e"
  by (simp add: cameraRun_def)

lemma cameraStep_position:
  "appliedTick e \<or> positionInBounds cam \<Longrightarrow> positionInBounds (cameraStep cam e)"
  by (cases e)
    (auto simp: moveInterval_def handleMouseMove_def moveTick_position mouseLook_keeps_position)

lemma cameraStep_pitch:
  "appliedPointerMove e \<or> pitchInBounds cam \<Longrightarrow> pitchInBounds (cameraStep cam e)"
  by (cases e)
    (auto simp: moveInterval_def handleMouseMove_def mouseLook_pitch moveTick_keeps_pitch)

lemma cameraRun_position:
  "list_ex appliedTick evs \<or> positionInBounds cam \<Longrightarrow> positionInBounds (cameraRun cam evs)"
proof (induction evs rule: rev_induct)
  case Nil
  then show ?case by (simp add: cameraRun_def)
next
  case (snoc e evs)
  then have "appliedTick e \<or> positionInBounds (cameraRun cam evs)"
    by (auto simp: list_ex_iff)
  then show ?case
    by (simp only: cameraRun_snoc cameraStep_position)
qed

lemma cameraRun_pitch:
  "list_ex appliedPointerMove evs \<or> pitchInBounds cam \<Longrightarrow> pitchInBounds (cameraRun cam evs)"
proof (induction evs rule: rev_induct)
  case Nil
  then show ?case by (simp add: cameraRun_def)
next
  case (snoc e evs)
  then have "appliedPointerMove e \<or> pitchInBounds (cameraRun cam evs)"
    by (auto simp: list_ex_iff)
  then show ?case
    by (simp only: cameraRun_snoc cameraStep_pitch)
qed


text \<open>
  C6. From every initial camera and through every history of motion ticks and
  pointer moves, with any key state at each tick: once a motion tick has been applied,
  \<open>x\<close> and \<open>z\<close> lie in \<open>[0, WORLD_SIZE - 1]\<close> and \<open>y\<close> lies in \<open>[2, 20]\<close>, and they stay there;
  once a pointer move has been applied, the pitch lies in \<open>[-\<pi>/2, \<pi>/2]\<close> and stays there;
  a camera that starts within the bounds never leaves them. The yaw is not clamped:
  a pointer move adds \<open>movementX * 0.002\<close> to it, whatever its value.
\<close>

theorem camera_stays_in_bounds:
  "(list_ex appliedTick evs \<or> positionInBounds cam \<longrightarrow> positionInBounds (cameraRun cam evs)) \<and>
   (list_ex appliedPointerMove evs \<or> pitchInBounds cam \<longrightarrow> pitchInBounds (cameraRun cam evs)) \<and>
   positionInBounds (moveTick keys cam) \<and>
   pitchInBounds (mouseLook mx my cam) \<and>
   cam_yaw (mouseLook mx my cam) = cam_yaw cam + mx * 0.002"
proof (intro conjI impI)
  show "cam_yaw (mouseLook mx my cam) = cam_yaw cam + mx * 0.002"
    by (simp add: mouseLook_def Let_def)
qed (simp_all only: cameraRun_position cameraRun_pitch moveTick_position mouseLook_pitch)

theorem camera_stays_in_bounds_witness:
  "list_ex appliedTick
     [Tick \<lparr>showChat = False, showInventory = False, pointerLocked = True\<rparr> {''w''},
      PointerMove \<lparr>showChat = False, showInventory = False, pointerLocked = True\<rparr> 10 2000] \<and>
   list_ex appliedPointerMove
     [Tick \<lparr>showChat = False, showInventory = False, pointerLocked = True\<rparr> {''w''},
      PointerMove \<lparr>showChat = False, showInventory = False, pointerLocked = True\<rparr> 10 2000] \<and>
   positionInBounds (cameraRun
     \<lparr>cam_x = 100, cam_y = 50, cam_z = - 3, cam_pitch = 7, cam_yaw = 0\<rparr>
     [Tick \<lparr>showChat = False, showInventory = False, pointerLocked = True\<rparr> {''w''},
      PointerMove \<lparr>showChat = False, showInventory = False, pointerLocked = True\<rparr> 10 2000]) \<and>
   pitchInBounds (cameraRun
     \<lparr>cam_x = 100, cam_y = 50, cam_z = - 3, cam_pitch = 7, cam_yaw = 0\<rparr>
     [Tick \<lparr>showChat = False, showInventory = False, pointerLocked = True\<rparr> {''w''},
      PointerMove \<lparr>showChat = False, showInventory = False, pointerLocked = True\<rparr> 10 2000]) \<and>
   cam_x (cameraRun
     \<lparr>cam_x = 100, cam_y = 50, cam_z = - 3, cam_pitch = 7, cam_yaw = 0\<rparr>
     [Tick \<lparr>showChat = False, showInventory = False, pointerLocked = True\<rparr> {''w''},
      PointerMove \<lparr>showChat = False, showInventory = False, pointerLocked = True\<rparr> 10 2000]) = 29"
proof -
  have x: "cam_x (cameraRun
     \<lparr>cam_x = 100, cam_y = 50, cam_z = - 3, cam_pitch = 7, cam_yaw = 0\<rparr>
     [Tick \<lparr>showChat = False, showInventory = False, pointerLocked = True\<rparr> {''w''},
      PointerMove \<lparr>showChat = False, showInventory = False, pointerLocked = True\<rparr> 10 2000]) = 29"
    by (simp add: cameraRun_def moveInterval_def handleMouseMove_def moveTick_def
        movedPosition_def mouseLook_def WORLD_SIZE_def Let_def)
  show ?thesis
    using x camera_stays_in_bounds
      [of "[Tick \<lparr>showChat = False, showInventory = False, pointerLocked = True\<rparr> {''w''},
            PointerMove \<lparr>showChat = False, showInventory = False, pointerLocked = True\<rparr> 10 2000]"
          "\<lparr>cam_x = 100, cam_y = 50, cam_z = - 3, cam_pitch = 7, cam_yaw = 0\<rparr>"]
    by simp
qed

section \<open>Projection and culling\<close>

lemma project_culled:
  "finalZ cam x y z \<le> 0.1 \<Longrightarrow>
   project3DTo2D (Some canvas) cam x y z = \<lparr>proj_x = 0, proj_y = 0, proj_distance = - 1\<rparr>"
  by (simp add: project3DTo2D_def)

lemma project_visible_distance:
  "\<not> finalZ cam x y z \<le> 0.1 \<Longrightarrow>
   proj_distance (project3DTo2D (Some canvas) cam x y z) = finalZ cam x y z"
  by (simp add: project3DTo2D_def Let_def)

lemma drawCube_culled:
  assumes "(cx, cy, cz) \<in> set (corners x y z)"
    and "proj_distance (project3DTo2D canvasRef cam cx cy cz) < 0"
  shows "drawCube canvasRef cam x y z color = []"
proof -
  have "list_ex (\<lambda>p. proj_distance p < 0)
     (map (\<lambda>(cx, cy, cz). project3DTo2D canvasRef cam cx cy cz) (corners x y z))"
    unfolding list_ex_iff using assms by force
  then show ?thesis
    by (simp add: drawCube_def Let_def)
qed

lemma drawCube_visible:
  assumes "\<not> list_ex (\<lambda>(cx, cy, cz). proj_distance (project3DTo2D canvasRef cam cx cy cz) < 0) (corners x y z)"
  shows "length (drawCube canvasRef cam x y z color) = 6"
proof -
  have "\<not> list_ex (\<lambda>p. proj_distance p < 0)
     (map (\<lambda>(cx, cy, cz). project3DTo2D canvasRef cam cx cy cz) (corners x y z))"
    using assms unfolding list_ex_iff by force
  then show ?thesis
    by (simp add: drawCube_def Let_def faces_def faceColors_def)
qed

text \<open>
  C2. With the canvas mounted, every world point whose forward depth \<open>finalZ\<close> (the
  depth after the yaw rotation and then the pitch rotation) is at most 0.1 projects to
  the sentinel point with distance \<open>-1\<close>; and a cube one of whose eight projected
  corners is that sentinel is not drawn at all: \<open>drawCube\<close> paints no face.
\<close>

theorem near_plane_cull:
  "(finalZ cam x y z \<le> 0.1 \<longrightarrow>
      project3DTo2D (Some canvas) cam x y z = \<lparr>proj_x = 0, proj_y = 0, proj_distance = - 1\<rparr>) \<and>
   ((cx, cy, cz) \<in> set (corners ox oy oz) \<and>
      project3DTo2D canvasRef cam cx cy cz = \<lparr>proj_x = 0, proj_y = 0, proj_distance = - 1\<rparr> \<longrightarrow>
      drawCube canvasRef cam ox oy oz color = []) \<and>
   ((cx, cy, cz) \<in> set (corners ox oy oz) \<and> finalZ cam cx cy cz \<le> 0.1 \<longrightarrow>
      drawCube (Some canvas) cam ox oy oz color = [])"
proof (intro conjI impI)
  assume "finalZ cam x y z \<le> 0.1"
  then show "project3DTo2D (Some canvas) cam x y z = \<lparr>proj_x = 0, proj_y = 0, proj_distance = - 1\<rparr>"
    by (rule project_culled)
next
  assume a: "(cx, cy, cz) \<in> set (corners ox oy oz) \<and>
      project3DTo2D canvasRef cam cx cy cz = \<lparr>proj_x = 0, proj_y = 0, proj_distance = - 1\<rparr>"
  then have "proj_distance (project3DTo2D canvasRef cam cx cy cz) < 0" by simp
  with a show "drawCube canvasRef cam ox oy oz color = []"
    using drawCube_culled by blast
next
  assume a: "(cx, cy, cz) \<in> set (corners ox oy oz) \<and> finalZ cam cx cy cz \<le> 0.1"
  then have "proj_distance (project3DTo2D (Some canvas) cam cx cy cz) < 0"
    by (simp add: project_culled)
  with a show "drawCube (Some canvas) cam ox oy oz color = []"
    using drawCube_culled by blast
qed

lemma finalZ_behind: "finalZ initialCamera 15 5 14 = - 1"
  by (simp add: finalZ_def rotatedZ_def initialCamera_def)

theorem near_plane_cull_witness:
  "finalZ initialCamera 15 5 14 \<le> 0.1 \<and>
   project3DTo2D (Some \<lparr>canvas_width = 800, canvas_height = 600\<rparr>) initialCamera 15 5 14 =
     \<lparr>proj_x = 0, proj_y = 0, proj_distance = - 1\<rparr> \<and>
   (15, 5, 14) \<in> set (corners 15 5 14) \<and>
   drawCube (Some \<lparr>canvas_width = 800, canvas_height = 600\<rparr>) initialCamera 15 5 14
     (blockColors grass) = []"
proof -
  have z: "finalZ initialCamera 15 5 14 \<le> 0.1"
    by (simp add: finalZ_behind)
  have c: "(15, 5, 14) \<in> set (corners 15 5 14)"
    by (simp add: corners_def)
  show ?thesis
    using z c near_plane_cull [of initialCamera 15 5 14
        "\<lparr>canvas_width = 800, canvas_height = 600\<rparr>" 15 5 14 15 5 14
        "Some \<lparr>canvas_width = 800, canvas_height = 600\<rparr>" "blockColors grass"]
    by simp
qed

text \<open>
  C8. For a camera with zero pitch and zero yaw and a point straight ahead of it
  (the camera's \<open>x\<close> and \<open>y\<close>, and \<open>z\<close> larger by \<open>d > 0.1\<close>) the projection is the centre
  of the canvas, and its distance is \<open>d\<close>.
\<close>

theorem projection_straight_ahead:
  "cam_pitch cam = 0 \<and> cam_yaw cam = 0 \<and> d > 0.1 \<longrightarrow>
   project3DTo2D (Some canvas) cam (cam_x cam) (cam_y cam) (cam_z cam + d) =
     \<lparr>proj_x = canvas_width canvas / 2, proj_y = canvas_height canvas / 2, proj_distance = d\<rparr>"
  by (simp add: project3DTo2D_def finalZ_def rotatedZ_def rotatedX_def rotatedY_def Let_def)

theorem projection_straight_ahead_witness:
  "cam_pitch initialCamera = 0 \<and> cam_yaw initialCamera = 0 \<and> (3::real) > 0.1 \<and>
   project3DTo2D (Some \<lparr>canvas_width = 800, canvas_height = 600\<rparr>) initialCamera 15 5 18 =
     \<lparr>proj_x = 400, proj_y = 300, proj_distance = 3\<rparr>"
  using projection_straight_ahead [of initialCamera 3 "\<lparr>canvas_width = 800, canvas_height = 600\<rparr>"]
  by (simp add: initialCamera_def)

section \<open>Painter's ordering\<close>

lemma mset_jsInsert: "mset (jsInsert cmp a bs) = add_mset a (mset bs)"
  by (induction bs) simp_all

lemma mset_jsSort: "mset (jsSort cmp xs) = mset xs"
  by (induction xs) (simp_all add: jsSort_def mset_jsInsert)

lemma set_jsInsert: "set (jsInsert cmp a bs) = insert a (set bs)"
  using mset_jsInsert [of cmp a bs] by (metis set_mset_add_mset_insert set_mset_mset)

text \<open>A comparator that subtracts keys, \<open>key b - key a\<close>, arranges by descending key.\<close>

lemma descending_jsInsert:
  fixes key :: "'a \<Rightarrow> real"
  assumes "sorted_wrt (\<lambda>a b. key b \<le> key a) bs"
  shows "sorted_wrt (\<lambda>a b. key b \<le> key a) (jsInsert (\<lambda>a b. key b - key a) c bs)"
  using assms
proof (induction bs)
  case Nil
  then show ?case by simp
next
  case (Cons b bs)
  show ?case
  proof (cases "key b \<le> key c")
    case True
    moreover from Cons.prems have "\<forall>e \<in> set bs. key e \<le> key b" by simp
    ultimately have "\<forall>e \<in> set (b # bs). key e \<le> key c" by auto
    with True Cons.prems show ?thesis by simp
  next
    case False
    then have "key c \<le> key b" by simp
    with False Cons show ?thesis
      by (auto simp: set_jsInsert)
  qed
qed

lemma descending_jsSort:
  fixes key :: "'a \<Rightarrow> real"
  shows "sorted_wrt (\<lambda>a b. key b \<le> key a) (jsSort (\<lambda>a b. key b - key a) xs)"
proof (induction xs)
  case Nil
  show ?case by (simp add: jsSort_def)
next
  case (Cons x xs)
  have "jsSort (\<lambda>a b. key b - key a) (x # xs) =
      jsInsert (\<lambda>a b. key b - key a) x (jsSort (\<lambda>a b. key b - key a) xs)"
    by (simp add: jsSort_def)
  with Cons show ?case
    by (simp only: descending_jsInsert)
qed

lemma withinRenderDistance_iff:
  "withinRenderDistance cam b \<longleftrightarrow> horizontalDistance cam b < RENDER_DISTANCE"
  by (simp add: withinRenderDistance_def horizontalDistance_def Let_def power2_eq_square)

lemma sorted_wrt_filter_keep:
  "sorted_wrt R xs \<Longrightarrow> sorted_wrt R (filter P xs)"
  by (induction xs) auto

lemma drawWorld_rasterized:
  "drawWorld (Some canvas) cam w =
     concat (map (\<lambda>block. drawCube (Some canvas) cam (real_of_int (block_x block))
                   (real_of_int (block_y block)) (real_of_int (block_z block))
                   (blockColors (block_type block)))
       (rasterized cam w))"
proof -
  have "concat (map (\<lambda>b. if P b then f b else []) xs) = concat (map f (filter P xs))"
    for P :: "Block \<Rightarrow> bool" and f :: "Block \<Rightarrow> FaceDraw list" and xs
    by (induction xs) simp_all
  then show ?thesis
    by (simp add: drawWorld_def rasterized_def)
qed

lemma example_distances:
  "map (horizontalDistance initialCamera)
     [\<lparr>block_type = grass, block_x = 16, block_y = 0, block_z = 15\<rparr>,
      \<lparr>block_type = stone, block_x = 20, block_y = 0, block_z = 15\<rparr>,
      \<lparr>block_type = dirt, block_x = 18, block_y = 0, block_z = 15\<rparr>] = [1, 5, 3]"
proof -
  have "sqrt 25 = sqrt (5\<^sup>2)" "sqrt 9 = sqrt (3\<^sup>2)" by simp_all
  then have "sqrt 25 = 5" "sqrt 9 = 3" by simp_all
  then show ?thesis
    by (simp add: horizontalDistance_def initialCamera_def)
qed

lemma example_order:
  "rasterized initialCamera
     [\<lparr>block_type = grass, block_x = 16, block_y = 0, block_z = 15\<rparr>,
      \<lparr>block_type = stone, block_x = 20, block_y = 0, block_z = 15\<rparr>,
      \<lparr>block_type = dirt, block_x = 18, block_y = 0, block_z = 15\<rparr>] =
     [\<lparr>block_type = stone, block_x = 20, block_y = 0, block_z = 15\<rparr>,
      \<lparr>block_type = dirt, block_x = 18, block_y = 0, block_z = 15\<rparr>,
      \<lparr>block_type = grass, block_x = 16, block_y = 0, block_z = 15\<rparr>]"
  by (simp add: rasterized_def sortedBlocks_def jsSort_def withinRenderDistance_def
      horizontalDistance_def initialCamera_def RENDER_DISTANCE_def Let_def)

text \<open>
  C7. On every frame the compositor selects exactly the blocks whose horizontal
  distance to the camera is below \<open>RENDER_DISTANCE\<close> (each as often as the world holds
  it), arranges them by non-increasing horizontal distance, and calls \<open>drawCube\<close> on
  those that are not air in that order, farthest first. Blocks at the horizontal
  distances 1, 5, 3 are drawn in the order 5, 3, 1.
\<close>

theorem painters_order:
  "mset (sortedBlocks cam w) =
     mset (filter (\<lambda>b. horizontalDistance cam b < RENDER_DISTANCE) w) \<and>
   sorted_wrt (\<lambda>a b. horizontalDistance cam b \<le> horizontalDistance cam a) (sortedBlocks cam w) \<and>
   mset (rasterized cam w) =
     mset (filter (\<lambda>b. horizontalDistance cam b < RENDER_DISTANCE \<and> block_type b \<noteq> air) w) \<and>
   sorted_wrt (\<lambda>a b. horizontalDistance cam b \<le> horizontalDistance cam a) (rasterized cam w) \<and>
   drawWorld (Some canvas) cam w =
     concat (map (\<lambda>block. drawCube (Some canvas) cam (real_of_int (block_x block))
                   (real_of_int (block_y block)) (real_of_int (block_z block))
                   (blockColors (block_type block)))
       (rasterized cam w)) \<and>
   map (horizontalDistance initialCamera)
     [\<lparr>block_type = grass, block_x = 16, block_y = 0, block_z = 15\<rparr>,
      \<lparr>block_type = stone, block_x = 20, block_y = 0, block_z = 15\<rparr>,
      \<lparr>block_type = dirt, block_x = 18, block_y = 0, block_z = 15\<rparr>] = [1, 5, 3] \<and>
   map (horizontalDistance initialCamera)
     (rasterized initialCamera
       [\<lparr>block_type = grass, block_x = 16, block_y = 0, block_z = 15\<rparr>,
        \<lparr>block_type = stone, block_x = 20, block_y = 0, block_z = 15\<rparr>,
        \<lparr>block_type = dirt, block_x = 18, block_y = 0, block_z = 15\<rparr>]) = [5, 3, 1]"
proof -
  have sel: "mset (sortedBlocks cam w) =
      mset (filter (\<lambda>b. horizontalDistance cam b < RENDER_DISTANCE) w)"
    by (simp add: sortedBlocks_def mset_jsSort withinRenderDistance_iff)
  have ord: "sorted_wrt (\<lambda>a b. horizontalDistance cam b \<le> horizontalDistance cam a)
      (sortedBlocks cam w)"
    unfolding sortedBlocks_def by (rule descending_jsSort)
  have rsel: "mset (rasterized cam w) =
      mset (filter (\<lambda>b. horizontalDistance cam b < RENDER_DISTANCE \<and> block_type b \<noteq> air) w)"
  proof -
    have "mset (rasterized cam w) = filter_mset (\<lambda>b. block_type b \<noteq> air) (mset (sortedBlocks cam w))"
      by (simp add: rasterized_def)
    also have "\<dots> = mset (filter (\<lambda>b. block_type b \<noteq> air)
        (filter (\<lambda>b. horizontalDistance cam b < RENDER_DISTANCE) w))"
      by (simp add: sel filter_filter_mset)
    finally show ?thesis
      by simp
  qed
  have rord: "sorted_wrt (\<lambda>a b. horizontalDistance cam b \<le> horizontalDistance cam a)
      (rasterized cam w)"
    unfolding rasterized_def using ord by (rule sorted_wrt_filter_keep)
  have ex: "map (horizontalDistance initialCamera)
     (rasterized initialCamera
       [\<lparr>block_type = grass, block_x = 16, block_y = 0, block_z = 15\<rparr>,
        \<lparr>block_type = stone, block_x = 20, block_y = 0, block_z = 15\<rparr>,
        \<lparr>block_type = dirt, block_x = 18, block_y = 0, block_z = 15\<rparr>]) = [5, 3, 1]"
    using example_distances by (simp add: example_order)
  from sel ord rsel rord drawWorld_rasterized example_distances ex show ?thesis
    by blast
qed

section \<open>Array helpers, properties\<close>

lemma findIndex_less: "findIndex P xs = Some k \<Longrightarrow> k < length xs"
  by (induction xs arbitrary: k) (auto split: if_splits)

lemma findIndex_find: "find P xs = map_option (\<lambda>k. xs ! k) (findIndex P xs)"
  by (induction xs) (simp_all add: option.map_comp comp_def)

lemma findIndex_holds: "findIndex P xs = Some k \<Longrightarrow> P (xs ! k)"
  by (induction xs arbitrary: k) (auto split: if_splits)

lemma findIndex_first: "findIndex P xs = Some k \<Longrightarrow> j < k \<Longrightarrow> \<not> P (xs ! j)"
proof (induction xs arbitrary: k j)
  case Nil
  then show ?case by simp
next
  case (Cons a as)
  then show ?case
    by (cases j) (auto split: if_splits)
qed

lemma findIndex_None: "findIndex P xs = None \<longleftrightarrow> \<not> list_ex P xs"
  by (induction xs) simp_all

lemma filterIndexNot_above:
  "k < n \<Longrightarrow> map snd (filter (\<lambda>(i, a). i \<noteq> k) (enumerate n xs)) = xs"
proof -
  assume "k < n"
  then have "\<forall>p \<in> set (enumerate n xs). (case p of (i, a) \<Rightarrow> i \<noteq> k)"
    by (auto simp: in_set_enumerate_eq)
  then have "filter (\<lambda>(i, a). i \<noteq> k) (enumerate n xs) = enumerate n xs"
    by (simp only: filter_True)
  then show ?thesis by simp
qed

lemma filterIndexNot_enumerate:
  "map snd (filter (\<lambda>(i, a). i \<noteq> n + k) (enumerate n xs)) = take k xs @ drop (Suc k) xs"
proof (induction xs arbitrary: n k)
  case Nil
  then show ?case by simp
next
  case (Cons a as)
  show ?case
  proof (cases k)
    case 0
    then show ?thesis
      using filterIndexNot_above [of n "Suc n" as] by simp
  next
    case (Suc j)
    with Cons [of "Suc n" j] show ?thesis by simp
  qed
qed

lemma filterIndexNot_take_drop: "filterIndexNot k xs = take k xs @ drop (Suc k) xs"
  using filterIndexNot_enumerate [of 0 k xs] by (simp add: filterIndexNot_def)


lemma mset_filterIndexNot:
  "k < length xs \<Longrightarrow> add_mset (xs ! k) (mset (filterIndexNot k xs)) = mset xs"
proof -
  assume "k < length xs"
  then have "xs = take k xs @ xs ! k # drop (Suc k) xs"
    by (simp add: id_take_nth_drop)
  then have "mset xs = mset (take k xs @ xs ! k # drop (Suc k) xs)"
    by simp
  then show ?thesis
    by (simp add: filterIndexNot_take_drop)
qed

section \<open>Crafting, properties\<close>

lemma canCraft_sufficient: "canCraft items recipe = list_all (sufficient items) (ingredients recipe)"
proof -
  have "(case find (\<lambda>i. item_type i = ing_type ing) items of
          None \<Rightarrow> False | Some item \<Rightarrow> item_count item \<ge> ing_count ing) = sufficient items ing"
    for ing
    by (simp add: sufficient_def countOf_def split: option.split)
  then show ?thesis
    by (simp add: canCraft_def)
qed

text \<open>Changing the count of the first entry of a type.\<close>

lemma countOf_changeFirst:
  assumes "findIndex (\<lambda>i. item_type i = u) items = Some k"
  shows "countOf (items[k := (items ! k)\<lparr>item_count := item_count (items ! k) + n\<rparr>]) t =
         map_option (\<lambda>c. c + (if t = u then n else 0)) (countOf items t)"
  using assms
proof (induction items arbitrary: k)
  case Nil
  then show ?case by simp
next
  case (Cons a as)
  show ?case
  proof (cases "item_type a = u")
    case True
    with Cons.prems have "k = 0" by simp
    with True show ?thesis
      by (simp add: countOf_def option.map_ident)
  next
    case False
    with Cons.prems obtain j where j: "findIndex (\<lambda>i. item_type i = u) as = Some j" "k = Suc j"
      by auto
    from Cons.IH [OF j(1)] j(2) False show ?thesis
      by (simp add: countOf_def option.map_ident)
  qed
qed

lemma countOf_takeIngredient:
  "countOf (takeIngredient items ing) t =
   map_option (\<lambda>c. c - (if t = ing_type ing then ing_count ing else 0)) (countOf items t)"
proof (cases "findIndex (\<lambda>i. item_type i = ing_type ing) items")
  case None
  then have "find (\<lambda>i. item_type i = ing_type ing) items = None"
    by (simp add: findIndex_find)
  then have "t = ing_type ing \<Longrightarrow> countOf items t = None"
    by (simp add: countOf_def)
  with None show ?thesis
    by (cases "t = ing_type ing") (simp_all add: takeIngredient_def option.map_ident)
next
  case (Some k)
  from countOf_changeFirst [OF Some, of "- ing_count ing" t] Some show ?thesis
    by (simp add: takeIngredient_def)
qed

lemma countOf_addResult:
  "countOf (addResult items recipe) t = map_option (\<lambda>c. c + credited recipe t) (countOf items t)"
proof (cases "findIndex (\<lambda>i. item_type i = result recipe) items")
  case None
  then have "find (\<lambda>i. item_type i = result recipe) items = None"
    by (simp add: findIndex_find)
  then have "t = result recipe \<Longrightarrow> countOf items t = None"
    by (simp add: countOf_def)
  with None show ?thesis
    by (cases "t = result recipe") (simp_all add: addResult_def credited_def option.map_ident)
next
  case (Some k)
  from countOf_changeFirst [OF Some, of "resultCount recipe" t] Some show ?thesis
    by (simp add: addResult_def credited_def)
qed

lemma countOf_takeAll:
  "countOf (foldl takeIngredient items ings) t =
   map_option (\<lambda>c. c - sum_list (map ing_count (filter (\<lambda>ing. ing_type ing = t) ings)))
     (countOf items t)"
proof (induction ings arbitrary: items)
  case Nil
  show ?case by (simp add: option.map_ident)
next
  case (Cons ing ings)
  show ?case
    by (simp add: Cons.IH countOf_takeIngredient option.map_comp comp_def algebra_simps)
qed

lemma countOf_craftInventory:
  "countOf (craftInventory recipe items) t =
   map_option (\<lambda>c. c - required recipe t + credited recipe t) (countOf items t)"
  by (simp add: craftInventory_def countOf_addResult countOf_takeAll required_def
      option.map_comp comp_def)

lemma nonNegative_changeFirst:
  assumes "nonNegative items" and "0 \<le> item_count (items ! k) + n"
  shows "nonNegative (items[k := (items ! k)\<lparr>item_count := item_count (items ! k) + n\<rparr>])"
proof -
  have "set (items[k := (items ! k)\<lparr>item_count := item_count (items ! k) + n\<rparr>])
      \<subseteq> insert ((items ! k)\<lparr>item_count := item_count (items ! k) + n\<rparr>) (set items)"
    by (rule set_update_subset_insert)
  with assms show ?thesis
    by (auto simp: nonNegative_def list_all_iff)
qed

lemma nonNegative_takeIngredient:
  assumes "nonNegative items" and "sufficient items ing"
  shows "nonNegative (takeIngredient items ing)"
proof (cases "findIndex (\<lambda>i. item_type i = ing_type ing) items")
  case None
  with assms(1) show ?thesis by (simp add: takeIngredient_def)
next
  case (Some k)
  then have "countOf items (ing_type ing) = Some (item_count (items ! k))"
    by (simp add: countOf_def findIndex_find)
  with assms(2) have "0 \<le> item_count (items ! k) + (- ing_count ing)"
    by (simp add: sufficient_def)
  from nonNegative_changeFirst [OF assms(1) this] Some show ?thesis
    by (simp add: takeIngredient_def)
qed

lemma sufficient_takeIngredient:
  assumes "ing_type other \<noteq> ing_type ing"
  shows "sufficient (takeIngredient items ing) other = sufficient items other"
  using assms by (simp add: sufficient_def countOf_takeIngredient option.map_ident)

lemma nonNegative_takeAll:
  assumes "distinct (map ing_type ings)" and "list_all (sufficient items) ings"
    and "nonNegative items"
  shows "nonNegative (foldl takeIngredient items ings)"
  using assms
proof (induction ings arbitrary: items)
  case Nil
  then show ?case by simp
next
  case (Cons ing ings)
  from Cons.prems have step: "nonNegative (takeIngredient items ing)"
    by (simp add: nonNegative_takeIngredient)
  from Cons.prems have "ing_type ing \<notin> ing_type ` set ings"
    by simp
  then have "\<forall>other \<in> set ings. ing_type other \<noteq> ing_type ing"
    by (metis imageI)
  with Cons.prems have "list_all (sufficient (takeIngredient items ing)) ings"
    by (simp add: list_all_iff sufficient_takeIngredient)
  with Cons.prems step have "nonNegative (foldl takeIngredient (takeIngredient items ing) ings)"
    by (intro Cons.IH) simp_all
  then show ?case by simp
qed

lemma nonNegative_addResult:
  assumes "nonNegative items" and "0 \<le> resultCount recipe"
  shows "nonNegative (addResult items recipe)"
proof (cases "findIndex (\<lambda>i. item_type i = result recipe) items")
  case None
  with assms(1) show ?thesis by (simp add: addResult_def)
next
  case (Some k)
  then have "k < length items" by (rule findIndex_less)
  with assms(1) have "0 \<le> item_count (items ! k)"
    by (simp add: nonNegative_def list_all_length)
  with assms(2) have "0 \<le> item_count (items ! k) + resultCount recipe" by simp
  from nonNegative_changeFirst [OF assms(1) this] Some show ?thesis
    by (simp add: addResult_def)
qed

lemma required_distinct:
  assumes "distinct (map ing_type (ingredients recipe))"
    and "ingredient \<in> set (ingredients recipe)"
  shows "required recipe (ing_type ingredient) = ing_count ingredient"
proof -
  have "distinct (map ing_type ings) \<Longrightarrow> ingredient \<in> set ings \<Longrightarrow>
      filter (\<lambda>other. ing_type other = ing_type ingredient) ings = [ingredient]" for ings
  proof (induction ings)
    case Nil
    then show ?case by simp
  next
    case (Cons a ings)
    show ?case
    proof (cases "a = ingredient")
      case True
      with Cons.prems have "ing_type ingredient \<notin> ing_type ` set ings"
        by simp
      then have "\<forall>other \<in> set ings. ing_type other \<noteq> ing_type ingredient"
        by (metis imageI)
      then have "filter (\<lambda>other. ing_type other = ing_type ingredient) ings = []"
        by (simp add: filter_empty_conv)
      with True show ?thesis by simp
    next
      case False
      with Cons.prems have "ingredient \<in> set ings" by simp
      moreover with Cons.prems have "ing_type a \<noteq> ing_type ingredient" by force
      ultimately show ?thesis using Cons by simp
    qed
  qed
  with assms show ?thesis by (simp add: required_def)
qed

text \<open>
  What \<open>handleCraft\<close> does to the counts, for any recipe and inventory. When some
  ingredient has no inventory entry of its type, or requires more than that entry
  holds, nothing changes. Otherwise the count of every type \<open>t\<close> that has an entry
  becomes its old count minus what the recipe requires of \<open>t\<close> plus what it yields of
  \<open>t\<close>. For a recipe whose ingredients have pairwise distinct types, what it requires
  of an ingredient's type is that ingredient's count, and, when also \<open>resultCount\<close> is
  not negative and no count was negative before, no count is negative afterwards.
\<close>

lemma craft_counts:
  "(\<not> list_all (sufficient (inventory g)) (ingredients recipe) \<longrightarrow> handleCraft recipe g = g) \<and>
   (list_all (sufficient (inventory g)) (ingredients recipe) \<longrightarrow>
      countOf (inventory (handleCraft recipe g)) t =
        map_option (\<lambda>c. c - required recipe t + credited recipe t) (countOf (inventory g) t)) \<and>
   (distinct (map ing_type (ingredients recipe)) \<and> ingredient \<in> set (ingredients recipe) \<longrightarrow>
      required recipe (ing_type ingredient) = ing_count ingredient) \<and>
   (list_all (sufficient (inventory g)) (ingredients recipe) \<and>
    distinct (map ing_type (ingredients recipe)) \<and> 0 \<le> resultCount recipe \<and>
    nonNegative (inventory g) \<longrightarrow>
      nonNegative (inventory (handleCraft recipe g)))"
proof (intro conjI impI)
  assume "\<not> list_all (sufficient (inventory g)) (ingredients recipe)"
  then show "handleCraft recipe g = g"
    by (simp add: handleCraft_def canCraft_sufficient)
next
  assume "list_all (sufficient (inventory g)) (ingredients recipe)"
  then show "countOf (inventory (handleCraft recipe g)) t =
      map_option (\<lambda>c. c - required recipe t + credited recipe t) (countOf (inventory g) t)"
    by (simp add: handleCraft_def canCraft_sufficient countOf_craftInventory)
next
  assume "distinct (map ing_type (ingredients recipe)) \<and> ingredient \<in> set (ingredients recipe)"
  then show "required recipe (ing_type ingredient) = ing_count ingredient"
    by (simp add: required_distinct)
next
  assume a: "list_all (sufficient (inventory g)) (ingredients recipe) \<and>
    distinct (map ing_type (ingredients recipe)) \<and> 0 \<le> resultCount recipe \<and>
    nonNegative (inventory g)"
  then have "nonNegative (foldl takeIngredient (inventory g) (ingredients recipe))"
    by (simp add: nonNegative_takeAll)
  with a have "nonNegative (craftInventory recipe (inventory g))"
    by (simp add: craftInventory_def nonNegative_addResult)
  with a show "nonNegative (inventory (handleCraft recipe g))"
    by (simp add: handleCraft_def canCraft_sufficient)
qed


text \<open>
  The test of \<open>canCraft\<close> looks at one ingredient at a time. A recipe that listed the
  same type twice would pass it against the count before the update and then take
  both; a recipe whose result type had no inventory entry would take its ingredients
  and credit nothing. The recipe table holds no such recipe, and the inventory of
  \<open>part_001\<close> has an entry for every type the table names.
\<close>

lemma craft_outside_the_table:
  "nonNegative [\<lparr>item_type = wood, item_count = 1\<rparr>, \<lparr>item_type = planks, item_count = 0\<rparr>] \<and>
   list_all
     (sufficient [\<lparr>item_type = wood, item_count = 1\<rparr>, \<lparr>item_type = planks, item_count = 0\<rparr>])
     [\<lparr>ing_type = wood, ing_count = 1\<rparr>, \<lparr>ing_type = wood, ing_count = 1\<rparr>] \<and>
   inventory (handleCraft
       \<lparr>recipe_id = ''double'', result = planks, resultCount = 4,
        ingredients = [\<lparr>ing_type = wood, ing_count = 1\<rparr>, \<lparr>ing_type = wood, ing_count = 1\<rparr>]\<rparr>
       (initialGame\<lparr>inventory :=
          [\<lparr>item_type = wood, item_count = 1\<rparr>, \<lparr>item_type = planks, item_count = 0\<rparr>]\<rparr>)) =
     [\<lparr>item_type = wood, item_count = - 1\<rparr>, \<lparr>item_type = planks, item_count = 4\<rparr>] \<and>
   inventory (handleCraft (hd recipes) (initialGame\<lparr>inventory := initialInventory_part000\<rparr>)) =
     [\<lparr>item_type = grass, item_count = 64\<rparr>, \<lparr>item_type = dirt, item_count = 64\<rparr>,
      \<lparr>item_type = stone, item_count = 64\<rparr>, \<lparr>item_type = wood, item_count = 63\<rparr>]"
  by (simp add: nonNegative_def sufficient_def countOf_def handleCraft_def canCraft_def
      craftInventory_def takeIngredient_def addResult_def initialGame_def
      initialInventory_part000_def recipes_def)

section \<open>The remove march\<close>

lemma findIndex_occupied: "findIndex (atCell cell) w = None \<longleftrightarrow> \<not> occupied w cell"
  by (simp add: findIndex_None occupied_def)

lemma removeMarch_from:
  "k + n = 9 \<Longrightarrow>
   removeMarch cam w (1 + real k / 2) =
     (case find (\<lambda>d. occupied w (lookCell cam d)) (map (\<lambda>j. 1 + real j / 2) [k ..< 9]) of
        None \<Rightarrow> None
      | Some d \<Rightarrow> findIndex (atCell (lookCell cam d)) w)"
proof (induction n arbitrary: k)
  case 0
  then have "\<not> 1 + real k / 2 \<le> 5" by simp
  with 0 show ?case
    by (subst removeMarch.simps) simp
next
  case (Suc n)
  then have k: "k < 9" and le: "1 + real k / 2 \<le> 5" by simp_all
  from k have split: "[k ..< 9] = k # [Suc k ..< 9]"
    by (simp add: upt_conv_Cons)
  have next_d: "1 + real k / 2 + 0.5 = 1 + real (Suc k) / 2"
    by (simp add: field_simps)
  show ?case
  proof (cases "findIndex (atCell (lookCell cam (1 + real k / 2))) w")
    case None
    then have free: "\<not> occupied w (lookCell cam (1 + real k / 2))"
      by (simp add: findIndex_occupied)
    from Suc.prems have "Suc k + n = 9" by simp
    from Suc.IH [OF this] None free le show ?thesis
      by (subst removeMarch.simps) (simp only: split next_d, simp)
  next
    case (Some i)
    then have "occupied w (lookCell cam (1 + real k / 2))"
      using findIndex_occupied [of "lookCell cam (1 + real k / 2)" w] by simp
    with Some le show ?thesis
      by (subst removeMarch.simps) (simp add: split)
  qed
qed

lemma removeMarch_firstHit:
  "removeMarch cam w 1 =
     (case firstHit cam w of None \<Rightarrow> None | Some d \<Rightarrow> findIndex (atCell (lookCell cam d)) w)"
  using removeMarch_from [of 0 9 cam w] by (simp add: firstHit_def sampleDistances_def)

lemma sampleDistances_list: "sampleDistances = [1, 3 / 2, 2, 5 / 2, 3, 7 / 2, 4, 9 / 2, 5]"
proof -
  have "[0 ..< 9] = [0, 1, 2, 3, 4, 5, 6, 7, 8 :: nat]"
    by (simp add: upt_rec)
  then show ?thesis
    by (simp add: sampleDistances_def)
qed

section \<open>Inventory updates\<close>

lemma types_incrementType: "map item_type (incrementType t items) = map item_type items"
  by (induction items) (simp_all add: incrementType_def)

lemma types_decrementType: "map item_type (decrementType t items) = map item_type items"
  by (induction items) (simp_all add: decrementType_def)

lemma countOf_incrementType:
  "countOf (incrementType t items) u =
     map_option (\<lambda>c. c + (if u = t then 1 else 0)) (countOf items u)"
  by (induction items) (auto simp: incrementType_def countOf_def option.map_ident)

lemma countOf_decrementType:
  "countOf (decrementType t items) u =
     map_option (\<lambda>c. c - (if u = t then 1 else 0)) (countOf items u)"
  by (induction items) (auto simp: decrementType_def countOf_def option.map_ident)

lemma countOf_None: "countOf items t = None \<longleftrightarrow> \<not> trackable items t"
  by (induction items) (auto simp: countOf_def trackable_def)


lemma entries_of_type:
  "distinct (map item_type items) \<Longrightarrow>
   int (length (filter (\<lambda>i. item_type i = t) items)) = (if trackable items t then 1 else 0)"
proof (induction items)
  case Nil
  then show ?case by (simp add: trackable_def)
next
  case (Cons a items)
  then have IH: "int (length (filter (\<lambda>i. item_type i = t) items)) =
      (if trackable items t then 1 else 0)"
    by simp
  show ?case
  proof (cases "item_type a = t")
    case True
    with Cons.prems have "\<not> trackable items t"
      by (simp add: trackable_def)
    with True IH show ?thesis by (simp add: trackable_def)
  next
    case False
    with IH show ?thesis by (simp add: trackable_def)
  qed
qed

lemma inventoryTotal_incrementType:
  "inventoryTotal (incrementType t items) =
     inventoryTotal items + int (length (filter (\<lambda>i. item_type i = t) items))"
  by (induction items) (simp_all add: inventoryTotal_def incrementType_def)

lemma inventoryTotal_decrementType:
  "inventoryTotal (decrementType t items) =
     inventoryTotal items - int (length (filter (\<lambda>i. item_type i = t) items))"
  by (induction items) (simp_all add: inventoryTotal_def decrementType_def)

lemma trackable_types:
  assumes "map item_type items' = map item_type items"
  shows "trackable items' t = trackable items t"
  unfolding trackable_def by (simp only: assms)

lemma trackedBlocks_types:
  assumes "map item_type items' = map item_type items"
  shows "trackedBlocks items' w = trackedBlocks items w"
  unfolding trackedBlocks_def trackable_def by (simp only: assms)

lemma trackedBlocks_append:
  "trackedBlocks items (w @ [b]) =
     trackedBlocks items w + (if trackable items (block_type b) then 1 else 0)"
  by (simp add: trackedBlocks_def)

lemma trackedBlocks_remove:
  assumes "k < length w"
  shows "trackedBlocks items w =
     trackedBlocks items (filterIndexNot k w) +
       (if trackable items (block_type (w ! k)) then 1 else 0)"
proof -
  have "trackedBlocks items (take k w @ w ! k # drop (Suc k) w) =
      trackedBlocks items (filterIndexNot k w) +
        (if trackable items (block_type (w ! k)) then 1 else 0)"
    by (simp add: trackedBlocks_def filterIndexNot_take_drop)
  then show ?thesis
    by (simp only: id_take_nth_drop [OF assms, symmetric])
qed

section \<open>The click handlers\<close>

lemma hasPositiveCount_find:
  "hasPositiveCount items t \<longleftrightarrow>
     (case find (\<lambda>i. item_type i = t) items of None \<Rightarrow> False | Some item \<Rightarrow> item_count item > 0)"
  by (simp add: hasPositiveCount_def countOf_def split: option.split)

lemma hasPositiveCount_trackable: "hasPositiveCount items t \<Longrightarrow> trackable items t"
  using countOf_None [of items t] by (auto simp: hasPositiveCount_def split: option.splits)

lemma handleCanvasClick_accepted:
  assumes "accepted button g"
  shows "handleCanvasClick button g =
    (case lookCell (camera g) 3 of (placeX, placeY, placeZ) \<Rightarrow>
      g\<lparr>isSwinging := True, handAnimation := 0,
        world := world g @ [\<lparr>block_type = selectedBlock g, block_x = placeX,
                              block_y = placeY, block_z = placeZ\<rparr>],
        inventory := decrementType (selectedBlock g) (inventory g),
        toasts := toasts g @ [ToastPlaced (selectedBlock g)]\<rparr>)"
  using assms
  by (auto simp: accepted_def handleCanvasClick_def hasPositiveCount_find occupied_def Let_def
      split: option.splits prod.splits)

lemma handleCanvasClick_insufficient:
  assumes "pointerLocked (ui g)" and "button = 0"
    and "\<not> hasPositiveCount (inventory g) (selectedBlock g)"
  shows "handleCanvasClick button g =
    g\<lparr>isSwinging := True, handAnimation := 0, toasts := toasts g @ [ToastInsufficient]\<rparr>"
  using assms
  by (auto simp: handleCanvasClick_def hasPositiveCount_find Let_def split: option.splits)

lemma handleCanvasClick_occupied:
  assumes "pointerLocked (ui g)" and "button = 0"
    and "hasPositiveCount (inventory g) (selectedBlock g)"
    and "occupied (world g) (lookCell (camera g) 3)"
  shows "handleCanvasClick button g = g\<lparr>isSwinging := True, handAnimation := 0\<rparr>"
  using assms
  by (auto simp: handleCanvasClick_def hasPositiveCount_find occupied_def Let_def
      split: option.splits)

lemma handleCanvasClick_rejected:
  assumes "\<not> accepted button g"
  shows "world (handleCanvasClick button g) = world g \<and>
         inventory (handleCanvasClick button g) = inventory g"
  using assms
  by (auto simp: accepted_def handleCanvasClick_def hasPositiveCount_find occupied_def Let_def
      split: option.splits)

section \<open>The context-menu handler\<close>

lemma firstHit_occupied: "firstHit cam w = Some d \<Longrightarrow> occupied w (lookCell cam d)"
  by (auto simp: firstHit_def find_Some_iff)




lemma firstHit_None:
  "firstHit cam w = None \<longleftrightarrow> (\<forall>d \<in> set sampleDistances. \<not> occupied w (lookCell cam d))"
  by (auto simp: firstHit_def find_None_iff)

lemma handleContextMenu_unlocked: "\<not> pointerLocked (ui g) \<Longrightarrow> handleContextMenu g = g"
  by (simp add: handleContextMenu_def)

lemma handleContextMenu_miss:
  "firstHit (camera g) (world g) = None \<Longrightarrow> handleContextMenu g = g"
  by (simp add: handleContextMenu_def removeMarch_firstHit)

lemma handleContextMenu_hit:
  assumes "pointerLocked (ui g)" and "firstHit (camera g) (world g) = Some d"
  obtains k where "findIndex (atCell (lookCell (camera g) d)) (world g) = Some k"
    and "k < length (world g)"
    and "atCell (lookCell (camera g) d) (world g ! k)"
    and "handleContextMenu g =
      g\<lparr>world := filterIndexNot k (world g),
        inventory := incrementType (block_type (world g ! k)) (inventory g),
        toasts := toasts g @ [ToastRemoved (block_type (world g ! k))],
        isSwinging := True,
        handAnimation := 0\<rparr>"
proof -
  from assms(2) have "occupied (world g) (lookCell (camera g) d)"
    by (rule firstHit_occupied)
  then obtain k where k: "findIndex (atCell (lookCell (camera g) d)) (world g) = Some k"
    using findIndex_occupied [of "lookCell (camera g) d" "world g"] by auto
  then have "k < length (world g)" "atCell (lookCell (camera g) d) (world g ! k)"
    by (simp_all add: findIndex_less findIndex_holds)
  moreover from k assms have "handleContextMenu g =
      g\<lparr>world := filterIndexNot k (world g),
        inventory := incrementType (block_type (world g ! k)) (inventory g),
        toasts := toasts g @ [ToastRemoved (block_type (world g ! k))],
        isSwinging := True,
        handAnimation := 0\<rparr>"
    by (simp add: handleContextMenu_def removeMarch_firstHit Let_def)
  ultimately show thesis using k that by blast
qed

section \<open>Conservation\<close>

lemma handleCanvasClick_types:
  "map item_type (inventory (handleCanvasClick button g)) = map item_type (inventory g)"
proof (cases "accepted button g")
  case True
  then show ?thesis
    by (simp add: handleCanvasClick_accepted types_decrementType split: prod.split)
next
  case False
  then show ?thesis by (simp add: handleCanvasClick_rejected)
qed

lemma handleContextMenu_types:
  "map item_type (inventory (handleContextMenu g)) = map item_type (inventory g)"
proof (cases "pointerLocked (ui g)")
  case False
  then show ?thesis by (simp add: handleContextMenu_unlocked)
next
  case True
  show ?thesis
  proof (cases "firstHit (camera g) (world g)")
    case None
    then show ?thesis by (simp add: handleContextMenu_miss)
  next
    case (Some d)
    from handleContextMenu_hit [OF True Some] obtain k where
      "handleContextMenu g =
        g\<lparr>world := filterIndexNot k (world g),
          inventory := incrementType (block_type (world g ! k)) (inventory g),
          toasts := toasts g @ [ToastRemoved (block_type (world g ! k))],
          isSwinging := True,
          handAnimation := 0\<rparr>"
      by blast
    then show ?thesis by (simp add: types_incrementType)
  qed
qed

lemma handleCanvasClick_conserved:
  assumes "distinct (map item_type (inventory g))"
  shows "conserved (handleCanvasClick button g) = conserved g"
proof (cases "accepted button g")
  case False
  then show ?thesis by (simp add: conserved_def handleCanvasClick_rejected)
next
  case True
  then have tr: "trackable (inventory g) (selectedBlock g)"
    by (simp add: accepted_def hasPositiveCount_trackable)
  obtain px py pz where cell: "lookCell (camera g) 3 = (px, py, pz)"
    by (cases "lookCell (camera g) 3") auto
  let ?b = "\<lparr>block_type = selectedBlock g, block_x = px, block_y = py, block_z = pz\<rparr>"
  from True cell have w: "world (handleCanvasClick button g) = world g @ [?b]"
    and i: "inventory (handleCanvasClick button g) = decrementType (selectedBlock g) (inventory g)"
    by (simp_all add: handleCanvasClick_accepted)
  have "inventoryTotal (decrementType (selectedBlock g) (inventory g)) = inventoryTotal (inventory g) - 1"
    using tr entries_of_type [OF assms, of "selectedBlock g"]
    by (simp add: inventoryTotal_decrementType)
  moreover have "trackedBlocks (decrementType (selectedBlock g) (inventory g)) (world g @ [?b]) =
      trackedBlocks (inventory g) (world g) + 1"
    using tr
    by (simp add: trackedBlocks_append trackedBlocks_types [OF types_decrementType]
        trackable_types [OF types_decrementType])
  ultimately show ?thesis
    by (simp add: conserved_def w i)
qed

lemma handleContextMenu_conserved:
  assumes "distinct (map item_type (inventory g))"
  shows "conserved (handleContextMenu g) = conserved g"
proof (cases "pointerLocked (ui g)")
  case False
  then show ?thesis by (simp add: handleContextMenu_unlocked)
next
  case True
  show ?thesis
  proof (cases "firstHit (camera g) (world g)")
    case None
    then show ?thesis by (simp add: handleContextMenu_miss)
  next
    case (Some d)
    from handleContextMenu_hit [OF True Some] obtain k where k: "k < length (world g)"
      and eq: "handleContextMenu g =
        g\<lparr>world := filterIndexNot k (world g),
          inventory := incrementType (block_type (world g ! k)) (inventory g),
          toasts := toasts g @ [ToastRemoved (block_type (world g ! k))],
          isSwinging := True,
          handAnimation := 0\<rparr>"
      by blast
    let ?t = "block_type (world g ! k)"
    have "inventoryTotal (incrementType ?t (inventory g)) =
        inventoryTotal (inventory g) + (if trackable (inventory g) ?t then 1 else 0)"
      using entries_of_type [OF assms, of ?t] by (simp add: inventoryTotal_incrementType)
    moreover have "trackedBlocks (incrementType ?t (inventory g)) (filterIndexNot k (world g)) =
        trackedBlocks (inventory g) (world g) - (if trackable (inventory g) ?t then 1 else 0)"
      using trackedBlocks_remove [OF k, of "inventory g"]
      by (simp add: trackedBlocks_types [OF types_incrementType])
    ultimately show ?thesis
      by (simp add: conserved_def eq)
  qed
qed

lemma gameStep_types:
  "map item_type (inventory (gameStep g ev)) = map item_type (inventory g)"
  by (cases ev) (simp_all add: handleCanvasClick_types handleContextMenu_types)

lemma gameStep_conserved:
  "distinct (map item_type (inventory g)) \<Longrightarrow> conserved (gameStep g ev) = conserved g"
proof (cases ev)
  case (Click button)
  assume "distinct (map item_type (inventory g))"
  with Click show ?thesis by (simp add: handleCanvasClick_conserved)
next
  case ContextMenu
  assume "distinct (map item_type (inventory g))"
  with ContextMenu show ?thesis by (simp add: handleContextMenu_conserved)
qed (simp_all add: conserved_def)

lemma gameRun_snoc: "gameRun g (evs @ [ev]) = gameStep (gameRun g evs) ev"
  by (simp add: gameRun_def)

lemma gameRun_types:
  "map item_type (inventory (gameRun g evs)) = map item_type (inventory g)"
proof (induction evs rule: rev_induct)
  case Nil
  show ?case by (simp add: gameRun_def)
next
  case (snoc ev evs)
  then show ?case by (simp only: gameRun_snoc gameStep_types)
qed

lemma gameRun_conserved:
  assumes "distinct (map item_type (inventory g))"
  shows "conserved (gameRun g evs) = conserved g"
proof (induction evs rule: rev_induct)
  case Nil
  show ?case by (simp add: gameRun_def)
next
  case (snoc ev evs)
  from assms have "distinct (map item_type (inventory (gameRun g evs)))"
    by (simp only: gameRun_types)
  then have "conserved (gameStep (gameRun g evs) ev) = conserved (gameRun g evs)"
    by (rule gameStep_conserved)
  with snoc show ?case by (simp only: gameRun_snoc)
qed

section \<open>Inventory conservation\<close>

lemma lookCell_initial: "lookCell initialCamera d = (15, 5, round (15 + d))"
  by (simp add: lookCell_def forwardVector_def initialCamera_def)

lemma playing_fields:
  "world (playing w items) = w" "inventory (playing w items) = items"
  "camera (playing w items) = initialCamera" "selectedBlock (playing w items) = grass"
  "pointerLocked (ui (playing w items))" "toasts (playing w items) = []"
  by (simp_all add: playing_def initialGame_def)

text \<open>
  C1. With one inventory entry per block type, every history of clicks and
  context-menu actions (with any camera movement, selection and capture changes in
  between) leaves the sum of the inventory counts plus the number of world blocks of
  trackable types unchanged. An accepted place takes exactly one unit from the
  selected type's count and appends exactly one block of that type to the world; a
  remove that hits deletes exactly one block from the world and, the block's type
  being trackable, adds one unit to the count of that type.
\<close>

theorem inventory_conservation:
  "distinct (map item_type (inventory g)) \<longrightarrow>
     conserved (gameRun g evs) = conserved g \<and>
     (accepted button g \<longrightarrow>
        inventoryTotal (inventory (handleCanvasClick button g)) = inventoryTotal (inventory g) - 1 \<and>
        countOf (inventory (handleCanvasClick button g)) (selectedBlock g) =
          map_option (\<lambda>c. c - 1) (countOf (inventory g) (selectedBlock g)) \<and>
        (\<exists>b. world (handleCanvasClick button g) = world g @ [b] \<and>
             block_type b = selectedBlock g)) \<and>
     (pointerLocked (ui g) \<and> firstHit (camera g) (world g) = Some d \<longrightarrow>
        (\<exists>k. k < length (world g) \<and>
             world (handleContextMenu g) = take k (world g) @ drop (Suc k) (world g) \<and>
             (trackable (inventory g) (block_type (world g ! k)) \<longrightarrow>
                inventoryTotal (inventory (handleContextMenu g)) = inventoryTotal (inventory g) + 1 \<and>
                countOf (inventory (handleContextMenu g)) (block_type (world g ! k)) =
                  map_option (\<lambda>c. c + 1) (countOf (inventory g) (block_type (world g ! k))))))"
proof (intro impI conjI)
  assume dist: "distinct (map item_type (inventory g))"
  then show "conserved (gameRun g evs) = conserved g"
    by (rule gameRun_conserved)
  {
    assume acc: "accepted button g"
    then have tr: "trackable (inventory g) (selectedBlock g)"
      by (simp add: accepted_def hasPositiveCount_trackable)
    obtain px py pz where cell: "lookCell (camera g) 3 = (px, py, pz)"
      by (cases "lookCell (camera g) 3") auto
    from acc cell have w: "world (handleCanvasClick button g) = world g @
        [\<lparr>block_type = selectedBlock g, block_x = px, block_y = py, block_z = pz\<rparr>]"
      and i: "inventory (handleCanvasClick button g) =
        decrementType (selectedBlock g) (inventory g)"
      by (simp_all add: handleCanvasClick_accepted)
    show "inventoryTotal (inventory (handleCanvasClick button g)) = inventoryTotal (inventory g) - 1"
      using tr entries_of_type [OF dist, of "selectedBlock g"]
      by (simp add: i inventoryTotal_decrementType)
    show "countOf (inventory (handleCanvasClick button g)) (selectedBlock g) =
        map_option (\<lambda>c. c - 1) (countOf (inventory g) (selectedBlock g))"
      by (simp add: i countOf_decrementType)
    show "\<exists>b. world (handleCanvasClick button g) = world g @ [b] \<and>
        block_type b = selectedBlock g"
      using w by simp
  }
  {
    assume "pointerLocked (ui g) \<and> firstHit (camera g) (world g) = Some d"
    then have locked: "pointerLocked (ui g)" and hit: "firstHit (camera g) (world g) = Some d"
      by simp_all
    from handleContextMenu_hit [OF locked hit] obtain k where k: "k < length (world g)"
      and eq: "handleContextMenu g =
        g\<lparr>world := filterIndexNot k (world g),
          inventory := incrementType (block_type (world g ! k)) (inventory g),
          toasts := toasts g @ [ToastRemoved (block_type (world g ! k))],
          isSwinging := True,
          handAnimation := 0\<rparr>"
      by blast
    have "trackable (inventory g) (block_type (world g ! k)) \<longrightarrow>
        inventoryTotal (inventory (handleContextMenu g)) = inventoryTotal (inventory g) + 1 \<and>
        countOf (inventory (handleContextMenu g)) (block_type (world g ! k)) =
          map_option (\<lambda>c. c + 1) (countOf (inventory g) (block_type (world g ! k)))"
      using entries_of_type [OF dist, of "block_type (world g ! k)"]
      by (simp add: eq inventoryTotal_incrementType countOf_incrementType)
    moreover have "world (handleContextMenu g) = take k (world g) @ drop (Suc k) (world g)"
      by (simp add: eq filterIndexNot_take_drop)
    ultimately show "\<exists>k. k < length (world g) \<and>
        world (handleContextMenu g) = take k (world g) @ drop (Suc k) (world g) \<and>
        (trackable (inventory g) (block_type (world g ! k)) \<longrightarrow>
           inventoryTotal (inventory (handleContextMenu g)) = inventoryTotal (inventory g) + 1 \<and>
           countOf (inventory (handleContextMenu g)) (block_type (world g ! k)) =
             map_option (\<lambda>c. c + 1) (countOf (inventory g) (block_type (world g ! k))))"
      using k by blast
  }
qed

theorem inventory_conservation_witness:
  "distinct (map item_type (inventory (playing [mkBlock stone 15 5 16] initialInventory))) \<and>
   accepted 0 (playing [mkBlock stone 15 5 16] initialInventory) \<and>
   pointerLocked (ui (playing [mkBlock stone 15 5 16] initialInventory)) \<and>
   firstHit (camera (playing [mkBlock stone 15 5 16] initialInventory))
     (world (playing [mkBlock stone 15 5 16] initialInventory)) = Some 1 \<and>
   conserved (playing [mkBlock stone 15 5 16] initialInventory) = 267 \<and>
   conserved (gameRun (playing [mkBlock stone 15 5 16] initialInventory) [Click 0, ContextMenu]) = 267 \<and>
   inventoryTotal (inventory (handleCanvasClick 0 (playing [mkBlock stone 15 5 16] initialInventory)))
     = 265 \<and>
   countOf (inventory (handleCanvasClick 0 (playing [mkBlock stone 15 5 16] initialInventory))) grass
     = Some 63"
proof -
  let ?g = "playing [mkBlock stone 15 5 16] initialInventory"
  have d: "distinct (map item_type (inventory ?g))"
    by (simp add: playing_fields initialInventory_def)
  have a: "accepted 0 ?g"
    by (simp add: accepted_def playing_fields hasPositiveCount_def countOf_def
        initialInventory_def occupied_def lookCell_initial mkBlock_def)
  have l: "pointerLocked (ui ?g)"
    by (simp add: playing_fields)
  have h: "firstHit (camera ?g) (world ?g) = Some 1"
    by (simp add: firstHit_def sampleDistances_list occupied_def playing_fields
        lookCell_initial mkBlock_def)
  have c: "conserved ?g = 267"
    by (simp add: conserved_def inventoryTotal_def trackedBlocks_def trackable_def
        playing_fields initialInventory_def mkBlock_def)
  have t: "inventoryTotal (inventory ?g) = 266" "countOf (inventory ?g) (selectedBlock ?g) = Some 64"
    "selectedBlock ?g = grass"
    by (simp_all add: inventoryTotal_def countOf_def playing_fields initialInventory_def)
  show ?thesis
    using d a l h c t inventory_conservation [of ?g "[Click 0, ContextMenu]" 0 1]
    by simp
qed

section \<open>Removing the nearest block\<close>


lemma remove_example:
  "handleContextMenu
     (playing [mkBlock stone 15 5 18, mkBlock dirt 15 5 17, mkBlock grass 15 5 18] initialInventory) =
   (playing [mkBlock stone 15 5 18, mkBlock grass 15 5 18] (incrementType dirt initialInventory))
     \<lparr>toasts := [ToastRemoved dirt], isSwinging := True, handAnimation := 0\<rparr>"
  by (simp add: handleContextMenu_def removeMarch_firstHit firstHit_def sampleDistances_list
      occupied_def playing_def initialGame_def lookCell_initial mkBlock_def round_def
      filterIndexNot_take_drop)

section \<open>Crediting the removed block\<close>







section \<open>Rejected place attempts\<close>

text \<open>
  In \<open>part_001\<close> (and \<open>part_000\<close>) a left click under pointer capture is rejected in
  two ways. Without a positive count for the selected type, world and inventory stay
  as they are and the insufficient-resources notification is shown. With a positive
  count but an occupied target cell, world, inventory and notifications stay as they
  are. The block is appended and the count is decremented together, when the attempt
  is accepted, and otherwise neither happens.
\<close>

lemma place_guarded_part001:
  "(pointerLocked (ui g) \<and> \<not> hasPositiveCount (inventory g) (selectedBlock g) \<longrightarrow>
      world (handleCanvasClick 0 g) = world g \<and>
      inventory (handleCanvasClick 0 g) = inventory g \<and>
      toasts (handleCanvasClick 0 g) = toasts g @ [ToastInsufficient]) \<and>
   (pointerLocked (ui g) \<and> hasPositiveCount (inventory g) (selectedBlock g) \<and>
    occupied (world g) (lookCell (camera g) 3) \<longrightarrow>
      world (handleCanvasClick 0 g) = world g \<and>
      inventory (handleCanvasClick 0 g) = inventory g \<and>
      toasts (handleCanvasClick 0 g) = toasts g) \<and>
   (accepted 0 g \<longrightarrow>
      length (world (handleCanvasClick 0 g)) = length (world g) + 1 \<and>
      inventory (handleCanvasClick 0 g) = decrementType (selectedBlock g) (inventory g)) \<and>
   (\<not> accepted 0 g \<longrightarrow>
      world (handleCanvasClick 0 g) = world g \<and>
      inventory (handleCanvasClick 0 g) = inventory g)"
proof (intro conjI impI)
  assume a: "pointerLocked (ui g) \<and> \<not> hasPositiveCount (inventory g) (selectedBlock g)"
  then have eq: "handleCanvasClick 0 g =
      g\<lparr>isSwinging := True, handAnimation := 0, toasts := toasts g @ [ToastInsufficient]\<rparr>"
    by (simp add: handleCanvasClick_insufficient)
  show "world (handleCanvasClick 0 g) = world g"
    and "inventory (handleCanvasClick 0 g) = inventory g"
    and "toasts (handleCanvasClick 0 g) = toasts g @ [ToastInsufficient]"
    by (simp_all add: eq)
next
  assume a: "pointerLocked (ui g) \<and> hasPositiveCount (inventory g) (selectedBlock g) \<and>
    occupied (world g) (lookCell (camera g) 3)"
  then have eq: "handleCanvasClick 0 g = g\<lparr>isSwinging := True, handAnimation := 0\<rparr>"
    by (simp add: handleCanvasClick_occupied)
  show "world (handleCanvasClick 0 g) = world g"
    and "inventory (handleCanvasClick 0 g) = inventory g"
    and "toasts (handleCanvasClick 0 g) = toasts g"
    by (simp_all add: eq)
next
  assume a: "accepted 0 g"
  obtain px py pz where cell: "lookCell (camera g) 3 = (px, py, pz)"
    by (cases "lookCell (camera g) 3") auto
  from a cell show "length (world (handleCanvasClick 0 g)) = length (world g) + 1"
    and "inventory (handleCanvasClick 0 g) = decrementType (selectedBlock g) (inventory g)"
    by (simp_all add: handleCanvasClick_accepted)
next
  assume a: "\<not> accepted 0 g"
  then show "world (handleCanvasClick 0 g) = world g"
    and "inventory (handleCanvasClick 0 g) = inventory g"
    by (simp_all add: handleCanvasClick_rejected)
qed

text \<open>
  C4 describes the handler of \<open>part_001\<close>; the handler of \<open>part_002\<close> does otherwise.
  Facing the occupied cell \<open>(8, 5, 10)\<close> with 64 grass, a click appends a second block
  at that cell and takes one grass. With no grass left, a click changes nothing and
  shows no notification.
\<close>

theorem place_part002_unguarded:
  "occupied [mkBlock stone 8 5 10]
     (round (cam_x (camera (playing_part002 [mkBlock stone 8 5 10] initialInventory_part000))
              + sin (cam_yaw (camera (playing_part002 [mkBlock stone 8 5 10] initialInventory_part000))) * 2),
      round (cam_y (camera (playing_part002 [mkBlock stone 8 5 10] initialInventory_part000))),
      round (cam_z (camera (playing_part002 [mkBlock stone 8 5 10] initialInventory_part000))
              + cos (cam_yaw (camera (playing_part002 [mkBlock stone 8 5 10] initialInventory_part000))) * 2)) \<and>
   world (handleCanvasClick_part002 0
       (playing_part002 [mkBlock stone 8 5 10] initialInventory_part000)) =
     [mkBlock stone 8 5 10, mkBlock grass 8 5 10] \<and>
   countOf (inventory (handleCanvasClick_part002 0
       (playing_part002 [mkBlock stone 8 5 10] initialInventory_part000))) grass = Some 63 \<and>
   toasts (handleCanvasClick_part002 0
       (playing_part002 [mkBlock stone 8 5 10] initialInventory_part000)) = [ToastPlaced grass] \<and>
   world (handleCanvasClick_part002 0
       (playing_part002 [] [\<lparr>item_type = grass, item_count = 0\<rparr>])) = [] \<and>
   inventory (handleCanvasClick_part002 0
       (playing_part002 [] [\<lparr>item_type = grass, item_count = 0\<rparr>])) =
     [\<lparr>item_type = grass, item_count = 0\<rparr>] \<and>
   toasts (handleCanvasClick_part002 0
       (playing_part002 [] [\<lparr>item_type = grass, item_count = 0\<rparr>])) = []"
  by (simp add: handleCanvasClick_part002_def playing_part002_def playing_def initialGame_def
      initialInventory_part000_def decrementType_def countOf_def occupied_def mkBlock_def Let_def)

section \<open>Village fixture\<close>

lemma plaza_blocks:
  "plaza =
    [mkBlock cobblestone 10 1 10, mkBlock cobblestone 10 1 11, mkBlock cobblestone 10 1 12,
     mkBlock cobblestone 11 1 10, mkBlock cobblestone 11 1 11, mkBlock cobblestone 11 1 12,
     mkBlock cobblestone 12 1 10, mkBlock cobblestone 12 1 11, mkBlock cobblestone 12 1 12]"
  by (simp add: plaza_def upto_rec1)

lemma length_buildHouse:
  "0 \<le> width \<Longrightarrow> 0 \<le> depth \<Longrightarrow> 0 \<le> height \<Longrightarrow>
   int (length (buildHouse startX startZ width depth height)) =
     height * (2 * width + 2 * depth) + width * depth + 2"
  by (simp add: buildHouse_def length_concat comp_def sum_list_triv
      algebra_simps nat_mult_distrib nat_add_distrib)

lemma length_houses: "length houses = 453"
proof -
  have "int (length houses) = 453"
    unfolding houses_def by (simp add: length_buildHouse)
  then show ?thesis by simp
qed

lemma length_baseLayer: "0 \<le> n \<Longrightarrow> int (length (baseLayer n)) = 3 * n * n"
  by (simp add: baseLayer_def length_concat comp_def sum_list_triv
      algebra_simps nat_mult_distrib)

text \<open>The layered terrain of \<open>part_002\<close>, in contrast, changes with the random source.\<close>

lemma terrain_fold_prefix:
  "\<exists>rest. fst (foldl (\<lambda>(blocks, r) (x, z).
        case terrainColumn r x z of (col, r') \<Rightarrow> (blocks @ col, r')) (acc, rnd) ps) = acc @ rest"
proof (induction ps arbitrary: acc rnd)
  case Nil
  show ?case by simp
next
  case (Cons p ps)
  obtain x z where p: "p = (x, z)" by (cases p)
  obtain col r' where c: "terrainColumn rnd x z = (col, r')" by (cases "terrainColumn rnd x z")
  from Cons [of "acc @ col" r'] obtain rest where
    "fst (foldl (\<lambda>(blocks, r) (x, z).
        case terrainColumn r x z of (col, r') \<Rightarrow> (blocks @ col, r')) (acc @ col, r') ps) =
      (acc @ col) @ rest"
    by blast
  with p c show ?case by simp
qed

lemma generateWorld_first_column:
  "\<exists>rest. fst (generateWorld_part002 rnd) = fst (terrainColumn rnd 0 0) @ rest"
proof -
  have "[0 .. 15] = 0 # [1 .. (15::int)]"
    by (simp add: upto_rec1)
  then obtain ps where ps: "List.product [0 .. 15] [0 .. (15::int)] = (0, 0) # ps"
    by simp
  obtain col r' where c: "terrainColumn rnd 0 0 = (col, r')"
    by (cases "terrainColumn rnd 0 0")
  from terrain_fold_prefix [of col r' ps] obtain rest where
    "fst (foldl (\<lambda>(blocks, r) (x, z).
        case terrainColumn r x z of (col, r') \<Rightarrow> (blocks @ col, r')) (col, r') ps) = col @ rest"
    by blast
  with ps c show ?thesis
    by (simp add: generateWorld_part002_def)
qed

lemma terrainColumn_low:
  "fst (terrainColumn (\<lambda>n. 0) 0 0) =
     [mkBlock stone 0 0 0, mkBlock dirt 0 1 0, mkBlock dirt 0 2 0, mkBlock grass 0 3 0]"
  by (simp add: terrainColumn_def mathRandom_def Let_def upto_rec1)

lemma terrainColumn_high:
  "fst (terrainColumn (\<lambda>n. 1 / 2) 0 0) =
     [mkBlock stone 0 0 0, mkBlock stone 0 1 0, mkBlock dirt 0 2 0, mkBlock dirt 0 3 0,
      mkBlock grass 0 4 0]"
  by (simp add: terrainColumn_def mathRandom_def Let_def upto_rec1)

lemma terrain_depends_on_random:
  "fst (generateWorld_part002 (\<lambda>n. 0)) \<noteq> fst (generateWorld_part002 (\<lambda>n. 1 / 2))"
proof -
  from generateWorld_first_column [of "\<lambda>n. 0"] obtain rest0 where
    "fst (generateWorld_part002 (\<lambda>n. 0)) = fst (terrainColumn (\<lambda>n. 0) 0 0) @ rest0"
    by blast
  then have low: "fst (generateWorld_part002 (\<lambda>n. 0)) ! 1 = mkBlock dirt 0 1 0"
    by (simp add: terrainColumn_low)
  from generateWorld_first_column [of "\<lambda>n. 1 / 2"] obtain rest1 where
    "fst (generateWorld_part002 (\<lambda>n. 1 / 2)) = fst (terrainColumn (\<lambda>n. 1 / 2) 0 0) @ rest1"
    by blast
  then have high: "fst (generateWorld_part002 (\<lambda>n. 1 / 2)) ! 1 = mkBlock stone 0 1 0"
    by (simp add: terrainColumn_high)
  have "mkBlock dirt 0 1 0 \<noteq> mkBlock stone 0 1 0"
    by (simp add: mkBlock_def)
  with low high show ?thesis by metis
qed

text \<open>
  C9. Two runs of the village generator produce the same block sequence, whatever
  the random source returns in either run and whatever state the game was in: the
  generator draws nothing from the random source. The blocks after the base layer are
  the four houses and the plaza, the same for every world size: 453 house blocks at
  fixed coordinates and the nine cobblestone blocks of the plaza.
\<close>

theorem village_deterministic:
  "world (fst (generateVillage rnd1 g1)) = world (fst (generateVillage rnd2 g2)) \<and>
   snd (generateVillage rnd1 g1) = rnd1 \<and>
   world (fst (generateVillage rnd1 g1)) = baseLayer WORLD_SIZE @ houses @ plaza \<and>
   drop (length (baseLayer n)) (villageBlocks n) = houses @ plaza \<and>
   houses = buildHouse 5 5 6 6 3 @ buildHouse 13 5 5 5 3 @ buildHouse 5 13 7 6 3 @
            buildHouse 14 14 6 6 4 \<and>
   length houses = 453 \<and>
   plaza =
    [mkBlock cobblestone 10 1 10, mkBlock cobblestone 10 1 11, mkBlock cobblestone 10 1 12,
     mkBlock cobblestone 11 1 10, mkBlock cobblestone 11 1 11, mkBlock cobblestone 11 1 12,
     mkBlock cobblestone 12 1 10, mkBlock cobblestone 12 1 11, mkBlock cobblestone 12 1 12]"
proof (intro conjI)
  show "world (fst (generateVillage rnd1 g1)) = world (fst (generateVillage rnd2 g2))"
    by (simp add: generateVillage_def)
  show "snd (generateVillage rnd1 g1) = rnd1"
    by (simp add: generateVillage_def)
  show "world (fst (generateVillage rnd1 g1)) = baseLayer WORLD_SIZE @ houses @ plaza"
    by (simp add: generateVillage_def villageBlocks_def)
  show "drop (length (baseLayer n)) (villageBlocks n) = houses @ plaza"
    by (simp add: villageBlocks_def)
  show "houses = buildHouse 5 5 6 6 3 @ buildHouse 13 5 5 5 3 @ buildHouse 5 13 7 6 3 @
            buildHouse 14 14 6 6 4"
    by (rule houses_def)
  show "length houses = 453"
    by (rule length_houses)
qed (rule plaza_blocks)

section \<open>The look vector\<close>

lemma samplePoint_forwardVector:
  "samplePoint cam e =
    (case forwardVector cam of (fx, fy, fz) \<Rightarrow>
      (cam_x cam + fx * e, cam_y cam + fy * e, cam_z cam + fz * e))"
  by (simp add: samplePoint_def forwardVector_def)

lemma lookCell_samplePoint:
  "lookCell cam e = (case samplePoint cam e of (px, py, pz) \<Rightarrow> (round px, round py, round pz))"
  by (simp add: lookCell_def samplePoint_def forwardVector_def)



lemma lookCell_nearest:
  "(case (samplePoint cam e, lookCell cam e) of ((px, py, pz), (cx, cy, cz)) \<Rightarrow>
      \<bar>real_of_int cx - px\<bar> \<le> 1 / 2 \<and> \<bar>real_of_int cy - py\<bar> \<le> 1 / 2 \<and>
      \<bar>real_of_int cz - pz\<bar> \<le> 1 / 2)"
proof -
  have r: "\<bar>real_of_int (round v) - v\<bar> \<le> 1 / 2" for v :: real
    by (rule of_int_round_abs_le)
  show ?thesis
    unfolding lookCell_samplePoint samplePoint_def
    by (simp only: prod.case r simp_thms)
qed





section \<open>Craft requests\<close>

text \<open>
  The overlay offers the recipes of the table and passes the chosen one to
  \<open>handleCraft\<close>. Each has one ingredient, of a type other than its result, and yields
  a positive number of items.
\<close>

lemma table_recipe:
  assumes "recipe \<in> set recipes"
  obtains ingredient where "ingredients recipe = [ingredient]"
    and "ing_type ingredient \<noteq> result recipe"
    and "ing_type ingredient \<in> {wood, cobblestone}"
    and "result recipe \<in> {planks, stone}"
    and "0 < resultCount recipe"
  using assms by (auto simp: recipes_def)

lemma six_entries:
  assumes "map item_type items = map item_type initialInventory"
    and "t \<in> {grass, dirt, stone, wood, planks, cobblestone}"
  obtains c where "countOf items t = Some c"
proof -
  from assms have "trackable items t"
    unfolding trackable_def by (auto simp: initialInventory_def)
  then have "countOf items t \<noteq> None"
    by (simp add: countOf_None)
  then show thesis using that by auto
qed

lemma types_changeFirst:
  assumes "k < length items"
  shows "map item_type (items[k := (items ! k)\<lparr>item_count := n\<rparr>]) = map item_type items"
  using assms by (simp add: map_update list_update_same_conv)

lemma types_takeIngredient: "map item_type (takeIngredient items ing) = map item_type items"
  by (auto simp: takeIngredient_def types_changeFirst findIndex_less split: option.split)

lemma types_addResult: "map item_type (addResult items recipe) = map item_type items"
  by (auto simp: addResult_def types_changeFirst findIndex_less split: option.split)

lemma types_takeAll: "map item_type (foldl takeIngredient items ings) = map item_type items"
  by (induction ings arbitrary: items) (simp_all add: types_takeIngredient)

lemma handleCraft_types:
  "map item_type (inventory (handleCraft recipe g)) = map item_type (inventory g)"
  by (simp add: handleCraft_def craftInventory_def types_addResult types_takeAll)

text \<open>
  C10. For every craft request the overlay can issue, a recipe of the table against
  an inventory with the six entries of \<open>part_001\<close> and no negative count: every
  ingredient's type has a count, and the ingredient is sufficient exactly when its
  required count does not exceed it. If some ingredient's required count exceeds the
  count of its type, \<open>handleCraft\<close> leaves the state unchanged. Otherwise, in one
  update of the inventory, the count of each ingredient's type is decremented by that
  ingredient's required count, the count of the result type is incremented by
  \<open>resultCount\<close>, every other count stays, and the craft is notified. In both cases
  the inventory keeps its entries and no count is negative afterwards.
\<close>

theorem craft_request:
  "recipe \<in> set recipes \<and> map item_type (inventory g) = map item_type initialInventory \<and>
   nonNegative (inventory g) \<longrightarrow>
     (ingredient \<in> set (ingredients recipe) \<longrightarrow>
        (\<exists>c. countOf (inventory g) (ing_type ingredient) = Some c \<and>
             (sufficient (inventory g) ingredient \<longleftrightarrow> ing_count ingredient \<le> c))) \<and>
     (ingredient \<in> set (ingredients recipe) \<and>
      countOf (inventory g) (ing_type ingredient) = Some c \<and> c < ing_count ingredient \<longrightarrow>
        handleCraft recipe g = g) \<and>
     (\<not> list_all (sufficient (inventory g)) (ingredients recipe) \<longrightarrow> handleCraft recipe g = g) \<and>
     (list_all (sufficient (inventory g)) (ingredients recipe) \<longrightarrow>
        (ingredient \<in> set (ingredients recipe) \<and>
         countOf (inventory g) (ing_type ingredient) = Some c \<longrightarrow>
           countOf (inventory (handleCraft recipe g)) (ing_type ingredient) =
             Some (c - ing_count ingredient)) \<and>
        (\<exists>r. countOf (inventory g) (result recipe) = Some r \<and>
             countOf (inventory (handleCraft recipe g)) (result recipe) =
               Some (r + resultCount recipe)) \<and>
        (t \<notin> set (map ing_type (ingredients recipe)) \<and> t \<noteq> result recipe \<longrightarrow>
           countOf (inventory (handleCraft recipe g)) t = countOf (inventory g) t) \<and>
        toasts (handleCraft recipe g) =
          toasts g @ [ToastCrafted (recipe_id recipe) (resultCount recipe)]) \<and>
     map item_type (inventory (handleCraft recipe g)) = map item_type (inventory g) \<and>
     nonNegative (inventory (handleCraft recipe g))"
proof
  assume hyp: "recipe \<in> set recipes \<and>
    map item_type (inventory g) = map item_type initialInventory \<and> nonNegative (inventory g)"
  then have six: "map item_type (inventory g) = map item_type initialInventory"
    and nn: "nonNegative (inventory g)"
    by simp_all
  from hyp obtain ing where ings: "ingredients recipe = [ing]"
    and other: "ing_type ing \<noteq> result recipe"
    and ityp: "ing_type ing \<in> {wood, cobblestone}"
    and rtyp: "result recipe \<in> {planks, stone}"
    and pos: "0 < resultCount recipe"
    using table_recipe [of recipe] by blast
  from ityp obtain held where held: "countOf (inventory g) (ing_type ing) = Some held"
    using six_entries [OF six, of "ing_type ing"] by blast
  from rtyp obtain r where r: "countOf (inventory g) (result recipe) = Some r"
    using six_entries [OF six, of "result recipe"] by blast
  have suff: "sufficient (inventory g) ing \<longleftrightarrow> ing_count ing \<le> held"
    by (simp add: sufficient_def held)
  have all: "list_all (sufficient (inventory g)) (ingredients recipe) \<longleftrightarrow> ing_count ing \<le> held"
    by (simp add: ings suff)
  have req: "required recipe t' = (if t' = ing_type ing then ing_count ing else 0)" for t'
    by (auto simp: required_def ings)
  have counts: "countOf (inventory (handleCraft recipe g)) t' =
      map_option (\<lambda>c. c - required recipe t' + credited recipe t') (countOf (inventory g) t')"
    if "list_all (sufficient (inventory g)) (ingredients recipe)" for t'
    using that craft_counts [of g recipe t' ing] by simp
  have unchanged: "handleCraft recipe g = g"
    if "\<not> list_all (sufficient (inventory g)) (ingredients recipe)"
    using that craft_counts [of g recipe t ing] by simp
  have c1: "ingredient \<in> set (ingredients recipe) \<longrightarrow>
      (\<exists>c. countOf (inventory g) (ing_type ingredient) = Some c \<and>
           (sufficient (inventory g) ingredient \<longleftrightarrow> ing_count ingredient \<le> c))"
    using held suff by (simp add: ings)
  have c2: "ingredient \<in> set (ingredients recipe) \<and>
      countOf (inventory g) (ing_type ingredient) = Some c \<and> c < ing_count ingredient \<longrightarrow>
        handleCraft recipe g = g"
  proof
    assume a: "ingredient \<in> set (ingredients recipe) \<and>
      countOf (inventory g) (ing_type ingredient) = Some c \<and> c < ing_count ingredient"
    with held have "\<not> ing_count ing \<le> held"
      by (auto simp: ings)
    with all show "handleCraft recipe g = g"
      by (simp add: unchanged)
  qed
  have c3: "\<not> list_all (sufficient (inventory g)) (ingredients recipe) \<longrightarrow> handleCraft recipe g = g"
    by (simp add: unchanged)
  have c4: "list_all (sufficient (inventory g)) (ingredients recipe) \<longrightarrow>
        (ingredient \<in> set (ingredients recipe) \<and>
         countOf (inventory g) (ing_type ingredient) = Some c \<longrightarrow>
           countOf (inventory (handleCraft recipe g)) (ing_type ingredient) =
             Some (c - ing_count ingredient)) \<and>
        (\<exists>r. countOf (inventory g) (result recipe) = Some r \<and>
             countOf (inventory (handleCraft recipe g)) (result recipe) =
               Some (r + resultCount recipe)) \<and>
        (t \<notin> set (map ing_type (ingredients recipe)) \<and> t \<noteq> result recipe \<longrightarrow>
           countOf (inventory (handleCraft recipe g)) t = countOf (inventory g) t) \<and>
        toasts (handleCraft recipe g) =
          toasts g @ [ToastCrafted (recipe_id recipe) (resultCount recipe)]"
  proof
    assume ok: "list_all (sufficient (inventory g)) (ingredients recipe)"
    have taken: "countOf (inventory (handleCraft recipe g)) (ing_type ing) =
        Some (held - ing_count ing)"
      using other by (simp add: counts [OF ok] req credited_def held)
    have given: "countOf (inventory (handleCraft recipe g)) (result recipe) =
        Some (r + resultCount recipe)"
      using other by (simp add: counts [OF ok] req credited_def r)
    have rest: "t \<notin> set (map ing_type (ingredients recipe)) \<and> t \<noteq> result recipe \<longrightarrow>
        countOf (inventory (handleCraft recipe g)) t = countOf (inventory g) t"
      by (simp add: counts [OF ok] req credited_def ings option.map_ident)
    have told: "toasts (handleCraft recipe g) =
        toasts g @ [ToastCrafted (recipe_id recipe) (resultCount recipe)]"
      using ok by (simp add: handleCraft_def canCraft_sufficient)
    have first: "ingredient \<in> set (ingredients recipe) \<and>
        countOf (inventory g) (ing_type ingredient) = Some c \<longrightarrow>
          countOf (inventory (handleCraft recipe g)) (ing_type ingredient) =
            Some (c - ing_count ingredient)"
      using taken held by (auto simp: ings)
    from first given r rest told
    show "(ingredient \<in> set (ingredients recipe) \<and>
         countOf (inventory g) (ing_type ingredient) = Some c \<longrightarrow>
           countOf (inventory (handleCraft recipe g)) (ing_type ingredient) =
             Some (c - ing_count ingredient)) \<and>
        (\<exists>r. countOf (inventory g) (result recipe) = Some r \<and>
             countOf (inventory (handleCraft recipe g)) (result recipe) =
               Some (r + resultCount recipe)) \<and>
        (t \<notin> set (map ing_type (ingredients recipe)) \<and> t \<noteq> result recipe \<longrightarrow>
           countOf (inventory (handleCraft recipe g)) t = countOf (inventory g) t) \<and>
        toasts (handleCraft recipe g) =
          toasts g @ [ToastCrafted (recipe_id recipe) (resultCount recipe)]"
      by blast
  qed
  have c5: "map item_type (inventory (handleCraft recipe g)) = map item_type (inventory g)"
    by (rule handleCraft_types)
  have c6: "nonNegative (inventory (handleCraft recipe g))"
  proof (cases "list_all (sufficient (inventory g)) (ingredients recipe)")
    case True
    with nn pos craft_counts [of g recipe t ing] show ?thesis
      by (simp add: ings)
  next
    case False
    with nn show ?thesis by (simp add: unchanged)
  qed
  from c1 c2 c3 c4 c5 c6
  show "(ingredient \<in> set (ingredients recipe) \<longrightarrow>
        (\<exists>c. countOf (inventory g) (ing_type ingredient) = Some c \<and>
             (sufficient (inventory g) ingredient \<longleftrightarrow> ing_count ingredient \<le> c))) \<and>
     (ingredient \<in> set (ingredients recipe) \<and>
      countOf (inventory g) (ing_type ingredient) = Some c \<and> c < ing_count ingredient \<longrightarrow>
        handleCraft recipe g = g) \<and>
     (\<not> list_all (sufficient (inventory g)) (ingredients recipe) \<longrightarrow> handleCraft recipe g = g) \<and>
     (list_all (sufficient (inventory g)) (ingredients recipe) \<longrightarrow>
        (ingredient \<in> set (ingredients recipe) \<and>
         countOf (inventory g) (ing_type ingredient) = Some c \<longrightarrow>
           countOf (inventory (handleCraft recipe g)) (ing_type ingredient) =
             Some (c - ing_count ingredient)) \<and>
        (\<exists>r. countOf (inventory g) (result recipe) = Some r \<and>
             countOf (inventory (handleCraft recipe g)) (result recipe) =
               Some (r + resultCount recipe)) \<and>
        (t \<notin> set (map ing_type (ingredients recipe)) \<and> t \<noteq> result recipe \<longrightarrow>
           countOf (inventory (handleCraft recipe g)) t = countOf (inventory g) t) \<and>
        toasts (handleCraft recipe g) =
          toasts g @ [ToastCrafted (recipe_id recipe) (resultCount recipe)]) \<and>
     map item_type (inventory (handleCraft recipe g)) = map item_type (inventory g) \<and>
     nonNegative (inventory (handleCraft recipe g))"
    by (intro conjI)
qed

theorem craft_request_witness:
  "hd recipes \<in> set recipes \<and> recipes ! 1 \<in> set recipes \<and>
   map item_type (inventory initialGame) = map item_type initialInventory \<and>
   nonNegative (inventory initialGame) \<and>
   \<lparr>ing_type = wood, ing_count = 1\<rparr> \<in> set (ingredients (hd recipes)) \<and>
   countOf (inventory initialGame) wood = Some 64 \<and>
   list_all (sufficient (inventory initialGame)) (ingredients (hd recipes)) \<and>
   countOf (inventory (handleCraft (hd recipes) initialGame)) wood = Some 63 \<and>
   countOf (inventory (handleCraft (hd recipes) initialGame)) planks = Some 4 \<and>
   countOf (inventory (handleCraft (hd recipes) initialGame)) grass = Some 64 \<and>
   toasts (handleCraft (hd recipes) initialGame) = [ToastCrafted ''planks'' 4] \<and>
   nonNegative (inventory (handleCraft (hd recipes) initialGame)) \<and>
   countOf (inventory (handleCraft (recipes ! 1) initialGame)) cobblestone = Some 9 \<and>
   countOf (inventory (handleCraft (recipes ! 1) initialGame)) stone = Some 65 \<and>
   countOf (inventory outOfWood) wood = Some 0 \<and>
   handleCraft (hd recipes) outOfWood = outOfWood"
proof -
  let ?planks = "hd recipes" and ?stone = "recipes ! 1"
  let ?wood = "\<lparr>ing_type = wood, ing_count = 1\<rparr>"
  let ?cobble = "\<lparr>ing_type = cobblestone, ing_count = 1\<rparr>"
  let ?spent = "outOfWood"
  have m: "?planks \<in> set recipes" "?stone \<in> set recipes"
    "?wood \<in> set (ingredients ?planks)" "?cobble \<in> set (ingredients ?stone)"
    "result ?planks = planks" "resultCount ?planks = 4" "recipe_id ?planks = ''planks''"
    "result ?stone = stone" "resultCount ?stone = 1"
    "grass \<notin> set (map ing_type (ingredients ?planks))"
    by (simp_all add: recipes_def)
  have i: "map item_type (inventory initialGame) = map item_type initialInventory"
    "nonNegative (inventory initialGame)" "toasts initialGame = []"
    by (simp_all add: initialGame_def nonNegative_def initialInventory_def)
  have c: "countOf (inventory initialGame) wood = Some 64"
    "countOf (inventory initialGame) planks = Some 0"
    "countOf (inventory initialGame) grass = Some 64"
    "countOf (inventory initialGame) cobblestone = Some 10"
    "countOf (inventory initialGame) stone = Some 64"
    by (simp_all add: countOf_def initialGame_def initialInventory_def)
  have ok: "list_all (sufficient (inventory initialGame)) (ingredients ?planks)"
    "list_all (sufficient (inventory initialGame)) (ingredients ?stone)"
    by (simp_all add: sufficient_def c recipes_def)
  have sp: "map item_type (inventory ?spent) = map item_type initialInventory"
    "nonNegative (inventory ?spent)" "countOf (inventory ?spent) wood = Some 0"
    by (simp_all add: outOfWood_def initialGame_def nonNegative_def countOf_def
        initialInventory_def)
  from craft_request [of ?planks initialGame ?wood 64 grass] m i c ok
  have a: "countOf (inventory (handleCraft ?planks initialGame)) wood = Some 63 \<and>
      countOf (inventory (handleCraft ?planks initialGame)) planks = Some 4 \<and>
      countOf (inventory (handleCraft ?planks initialGame)) grass = Some 64 \<and>
      toasts (handleCraft ?planks initialGame) = [ToastCrafted ''planks'' 4] \<and>
      nonNegative (inventory (handleCraft ?planks initialGame))"
    by auto
  from craft_request [of ?stone initialGame ?cobble 10 grass] m i c ok
  have b: "countOf (inventory (handleCraft ?stone initialGame)) cobblestone = Some 9 \<and>
      countOf (inventory (handleCraft ?stone initialGame)) stone = Some 65"
    by auto
  from craft_request [of ?planks ?spent ?wood 0 grass] m sp
  have u: "handleCraft ?planks ?spent = ?spent"
    by auto
  from m i c ok a b u sp show ?thesis
    by simp
qed

end
